theory Spec2Isabelle
  imports Complex_Main
begin

section \<open>Data model (models.py)\<close>

text \<open>
  The duel engine of \<^verbatim>\<open>backend/services/duel_service.py\<close> over the tables of
  \<^verbatim>\<open>backend/models.py\<close>. Python integers are \<open>int\<close>; a nullable column is an
  \<open>option\<close>; a table is the list of its rows in primary-key order.
\<close>

datatype DuelStatusEnum = WAITING | ACTIVE | COMPLETED

datatype QuestionTypeEnum = MCQ | FILL_BLANK | FLASHCARD | CODE

text \<open>
  A Python \<^verbatim>\<open>datetime\<close>: the wall-clock reading in microseconds and its
  \<^verbatim>\<open>tzinfo\<close> (\<open>None\<close> for a naive value, otherwise the UTC offset in
  microseconds). SQLite hands timestamps back naive, other engines hand them back aware.
\<close>

record datetime =
  wall :: int
  tzinfo :: "int option"

record User =
  u_id :: int
  username :: string
  xp :: "int option"

record Question =
  q_id :: int
  q_type :: QuestionTypeEnum
  correct_answer :: string
  difficulty :: int
  xp_reward :: int

record QuestionAttempt =
  a_user_id :: int
  a_question_id :: int
  user_answer :: string
  is_correct :: bool
  time_taken :: int
  a_created_at :: datetime

record Duel =
  duel_id :: int
  challenger_id :: int
  opponent_id :: "int option"
  question_id :: int
  status :: DuelStatusEnum
  winner_id :: "int option"
  created_at :: datetime
  completed_at :: "datetime option"

record db =
  users :: "User list"
  questions :: "Question list"
  attempts :: "QuestionAttempt list"
  duels :: "Duel list"

text \<open>
  What a call reads from outside the store. The session factory lives in
  \<^verbatim>\<open>database.py\<close>, which is not part of the sources at hand, so whether the
  session flushes pending rows before a query (\<open>autoflush\<close>) is a parameter.
  \<open>db_now\<close> is the value the server default \<^verbatim>\<open>func.now()\<close> gives a new row,
  \<open>py_now\<close> the reading of \<^verbatim>\<open>datetime.now(timezone.utc)\<close> in microseconds,
  \<open>execute_code\<close> the execution judge (code, language, expected output),
  \<open>random_random\<close> and \<open>random_randint\<close> the draws of
  \<^verbatim>\<open>random.random()\<close> (a double, held as the number it denotes) and
  \<^verbatim>\<open>random.randint(-2, 3)\<close>.
\<close>

datatype exec_outcome = ExecRaises | ExecResult "bool option"

record env =
  autoflush :: bool
  db_now :: datetime
  py_now :: int
  execute_code :: "string \<Rightarrow> string \<Rightarrow> string \<Rightarrow> exec_outcome"
  random_random :: rat
  random_randint :: int

datatype error =
    Question_not_found
  | Only_code_questions
  | Already_have_active_duel
  | Duel_not_found
  | Duel_not_available_for_joining
  | Cannot_join_own_duel
  | Duel_already_has_opponent
  | Duel_is_not_active
  | Not_a_participant
  | Duel_is_already_completed
  | Execution_failed
  | TypeError

section \<open>Time\<close>

definition seconds :: "int \<Rightarrow> int" where
  "seconds n = n * 1000000"

definition minutes :: "int \<Rightarrow> int" where
  "minutes n = seconds (60 * n)"

definition now_utc :: "env \<Rightarrow> datetime" where
  "now_utc e = \<lparr>wall = py_now e, tzinfo = Some 0\<rparr>"

text \<open>\<^verbatim>\<open>if created_at.tzinfo is None: created_at = created_at.replace(tzinfo=timezone.utc)\<close>\<close>

definition assume_utc :: "datetime \<Rightarrow> datetime" where
  "assume_utc dt = (if tzinfo dt = None then dt\<lparr>tzinfo := Some 0\<rparr> else dt)"

text \<open>
  The instant a timestamp denotes, in microseconds of UTC. A naive value counts as UTC,
  which is also how the rows of one table compare inside the database.
\<close>

definition instant :: "datetime \<Rightarrow> int" where
  "instant dt = wall dt - (case tzinfo dt of None \<Rightarrow> 0 | Some off \<Rightarrow> off)"

section \<open>Queries and row updates\<close>

text \<open>
  A query's \<^verbatim>\<open>first()\<close> is the first matching row of the table; an update or a delete
  of a loaded row goes by its primary key.
\<close>

definition get_duel_row :: "db \<Rightarrow> int \<Rightarrow> Duel option" where
  "get_duel_row s i = find (\<lambda>d. duel_id d = i) (duels s)"

definition get_question :: "db \<Rightarrow> int \<Rightarrow> Question option" where
  "get_question s i = find (\<lambda>q. q_id q = i) (questions s)"

definition get_user :: "db \<Rightarrow> int \<Rightarrow> User option" where
  "get_user s i = find (\<lambda>u. u_id u = i) (users s)"

definition update_row :: "int \<Rightarrow> (Duel \<Rightarrow> Duel) \<Rightarrow> Duel list \<Rightarrow> Duel list" where
  "update_row i f ds = map (\<lambda>d. if duel_id d = i then f d else d) ds"

definition delete_row :: "int \<Rightarrow> Duel list \<Rightarrow> Duel list" where
  "delete_row i ds = filter (\<lambda>d. duel_id d \<noteq> i) ds"

text \<open>The autoincremented primary key of a new row.\<close>

definition next_id :: "Duel list \<Rightarrow> int" where
  "next_id ds = fold max (map duel_id ds) 0 + 1"

text \<open>
  \<^verbatim>\<open>or_(challenger_id == uid, opponent_id == uid), status.in_([WAITING, ACTIVE])\<close>
\<close>

definition open_duel_of :: "int \<Rightarrow> Duel \<Rightarrow> bool" where
  "open_duel_of uid d \<longleftrightarrow>
     (challenger_id d = uid \<or> opponent_id d = Some uid) \<and>
     (status d = WAITING \<or> status d = ACTIVE)"

definition existing_duel :: "db \<Rightarrow> int \<Rightarrow> Duel option" where
  "existing_duel s uid = find (open_duel_of uid) (duels s)"

text \<open>
  The attempts of one user on one question since a given time, and the first of them in
  descending order of \<^verbatim>\<open>created_at\<close>. SQL leaves the order among equal timestamps
  open; among those the earliest inserted row is taken here.
\<close>

definition attempts_since :: "db \<Rightarrow> int \<Rightarrow> int \<Rightarrow> datetime \<Rightarrow> QuestionAttempt list" where
  "attempts_since s uid qid since =
     filter (\<lambda>a. a_user_id a = uid \<and> a_question_id a = qid \<and>
                 instant since \<le> instant (a_created_at a)) (attempts s)"

fun newest :: "QuestionAttempt list \<Rightarrow> QuestionAttempt option" where
  "newest [] = None"
| "newest (a # as) =
     (case newest as of
        None \<Rightarrow> Some a
      | Some b \<Rightarrow> if instant (a_created_at a) < instant (a_created_at b) then Some b else Some a)"

definition latest_attempt :: "db \<Rightarrow> int \<Rightarrow> int \<Rightarrow> datetime \<Rightarrow> QuestionAttempt option" where
  "latest_attempt s uid qid since = newest (attempts_since s uid qid since)"

section \<open>Matchmaker\<close>

text \<open>\<^verbatim>\<open>_assign_bot_opponent\<close>: bot ids are the negated difficulty of the question.\<close>

definition assign_bot_opponent :: "db \<Rightarrow> Duel \<Rightarrow> int option" where
  "assign_bot_opponent s duel =
     (case get_question s (question_id duel) of
        None \<Rightarrow> None
      | Some question \<Rightarrow> Some (- difficulty question))"

text \<open>The other waiting duel on the same question that \<^verbatim>\<open>_attempt_matchmaking\<close> looks for.\<close>

definition potential_opponent_duel :: "db \<Rightarrow> Duel \<Rightarrow> Duel option" where
  "potential_opponent_duel s duel =
     find (\<lambda>d. status d = WAITING \<and> question_id d = question_id duel \<and>
               challenger_id d \<noteq> challenger_id duel \<and> duel_id d \<noteq> duel_id duel \<and>
               opponent_id d = None) (duels s)"

definition activate :: "int \<Rightarrow> Duel \<Rightarrow> Duel" where
  "activate opp d = d\<lparr>opponent_id := Some opp, status := ACTIVE\<rparr>"

definition attempt_matchmaking :: "env \<Rightarrow> int \<Rightarrow> db \<Rightarrow> bool \<times> db" where
  "attempt_matchmaking e did s =
     (case get_duel_row s did of
        None \<Rightarrow> (False, s)
      | Some duel \<Rightarrow>
          if status duel \<noteq> WAITING then (False, s)
          else
            (case potential_opponent_duel s duel of
               Some other \<Rightarrow>
                 (True, s\<lparr>duels := delete_row (duel_id other)
                                    (update_row (duel_id duel) (activate (challenger_id other)) (duels s))\<rparr>)
             | None \<Rightarrow>
                 if seconds 30 < instant (now_utc e) - instant (assume_utc (created_at duel)) then
                   (case assign_bot_opponent s duel of
                      None \<Rightarrow> (False, s)
                    | Some bot_id \<Rightarrow>
                        if bot_id \<noteq> 0 then
                          (True, s\<lparr>duels := update_row (duel_id duel) (activate bot_id) (duels s)\<rparr>)
                        else (False, s))
                 else (False, s)))"

definition new_duel :: "env \<Rightarrow> db \<Rightarrow> int \<Rightarrow> int \<Rightarrow> Duel" where
  "new_duel e s qid challenger =
     \<lparr>duel_id = next_id (duels s), challenger_id = challenger, opponent_id = None,
      question_id = qid, status = WAITING, winner_id = None,
      created_at = db_now e, completed_at = None\<rparr>"

definition create_duel :: "env \<Rightarrow> int \<Rightarrow> int \<Rightarrow> db \<Rightarrow> (error + Duel) \<times> db" where
  "create_duel e qid challenger s =
     (case get_question s qid of
        None \<Rightarrow> (Inl Question_not_found, s)
      | Some question \<Rightarrow>
          if q_type question \<noteq> CODE then (Inl Only_code_questions, s)
          else
            (case existing_duel s challenger of
               Some d \<Rightarrow> (Inl Already_have_active_duel, s)
             | None \<Rightarrow>
                 let duel = new_duel e s qid challenger;
                     s1 = s\<lparr>duels := duels s @ [duel]\<rparr>;
                     s2 = snd (attempt_matchmaking e (duel_id duel) s1)
                 in (case get_duel_row s2 (duel_id duel) of
                       Some d \<Rightarrow> (Inr d, s2)
                     | None \<Rightarrow> (Inr duel, s2))))"

definition join_duel :: "int \<Rightarrow> int \<Rightarrow> db \<Rightarrow> (error + Duel) \<times> db" where
  "join_duel did uid s =
     (case get_duel_row s did of
        None \<Rightarrow> (Inl Duel_not_found, s)
      | Some duel \<Rightarrow>
          if status duel \<noteq> WAITING then (Inl Duel_not_available_for_joining, s)
          else if challenger_id duel = uid then (Inl Cannot_join_own_duel, s)
          else if opponent_id duel \<noteq> None then (Inl Duel_already_has_opponent, s)
          else
            (case existing_duel s uid of
               Some d \<Rightarrow> (Inl Already_have_active_duel, s)
             | None \<Rightarrow>
                 (Inr (activate uid duel),
                  s\<lparr>duels := update_row (duel_id duel) (activate uid) (duels s)\<rparr>)))"

section \<open>Python floats and integers\<close>

text \<open>
  A Python \<^verbatim>\<open>float\<close> is an IEEE double, held here as the rational number it
  denotes. \<open>to_double\<close> gives the double nearest to a number, ties going to the even
  significand: it is the value of a decimal literal, and the result of an addition is
  \<open>to_double\<close> of the exact sum. \<open>bit_length\<close> is \<^verbatim>\<open>int.bit_length\<close>,
  \<open>binade x\<close> the exponent \<open>e\<close> with \<open>2 ^ e \<le> x < 2 ^ (e + 1)\<close> for a positive
  \<open>x\<close>, and \<open>ulp x\<close> the distance of the doubles of that binade, whose significands have
  53 bits. \<open>double_of_int\<close> is the conversion of an integer operand to a double, exact up
  to 53 bits and rounded beyond. Subnormal numbers and numbers beyond the largest double
  (from \<open>2 ^ 1024\<close> on, where the conversion raises) are not covered: the numbers
  converted are \<^verbatim>\<open>Integer\<close> columns, of 64 bits at most, and the doubles are
  between 0.2 and 1.
\<close>

function bit_length :: "int \<Rightarrow> nat" where
  "bit_length n = (if n \<le> 0 then 0 else Suc (bit_length (n div 2)))"
  by pat_completeness auto
termination
  by (relation "measure nat") auto

declare bit_length.simps [simp del]

definition round_half_even :: "rat \<Rightarrow> int" where
  "round_half_even x =
     (let f = \<lfloor>x\<rfloor>; r = x - of_int f
      in if r < 1 / 2 then f else if 1 / 2 < r then f + 1 else if even f then f else f + 1)"

definition binade :: "rat \<Rightarrow> int" where
  "binade x =
     (if 1 \<le> x then int (bit_length \<lfloor>x\<rfloor>) - 1
      else - int (bit_length (\<lceil>1 / x\<rceil> - 1)))"

definition ulp :: "rat \<Rightarrow> rat" where
  "ulp x = (let e = binade x in if 52 \<le> e then 2 ^ nat (e - 52) else 1 / 2 ^ nat (52 - e))"

definition to_double :: "rat \<Rightarrow> rat" where
  "to_double x =
     (if x = 0 then 0
      else sgn x * of_int (round_half_even (\<bar>x\<bar> / ulp \<bar>x\<bar>)) * ulp \<bar>x\<bar>)"

definition double_of_int :: "int \<Rightarrow> int" where
  "double_of_int n =
     (let b = bit_length \<bar>n\<bar>
      in if b \<le> 53 then n
         else sgn n * (round_half_even (of_int \<bar>n\<bar> / 2 ^ (b - 53)) * 2 ^ (b - 53)))"

text \<open>\<^verbatim>\<open>int(x)\<close> of a float: the fraction is dropped.\<close>

definition py_int :: "rat \<Rightarrow> int" where
  "py_int x = (if 0 \<le> x then \<lfloor>x\<rfloor> else \<lceil>x\<rceil>)"

section \<open>Adjudicator\<close>

record bot_result =
  bot_is_correct :: bool
  bot_time_taken :: int

text \<open>
  The tables of \<^verbatim>\<open>_simulate_bot_solution\<close>, with \<^verbatim>\<open>dict.get\<close> defaults, and
  the local \<^verbatim>\<open>success_rate\<close>: the table entry, or
  \<^verbatim>\<open>min(success_rate + 0.2, 0.95)\<close> when the user got it wrong.
\<close>

definition success_rates :: "int \<Rightarrow> rat" where
  "success_rates d =
     (if d = 1 then to_double (3 / 10) else if d = 2 then to_double (5 / 10)
      else if d = 3 then to_double (7 / 10) else if d = 4 then to_double (85 / 100)
      else if d = 5 then to_double (95 / 100) else to_double (5 / 10))"

definition base_times :: "int \<Rightarrow> int" where
  "base_times d =
     (if d = 1 then 15 else if d = 2 then 12 else if d = 3 then 8
      else if d = 4 then 5 else if d = 5 then 3 else 10)"

definition success_rate :: "int \<Rightarrow> bool \<Rightarrow> rat" where
  "success_rate d user_is_correct =
     (if \<not> user_is_correct
      then min (to_double (success_rates d + to_double (2 / 10))) (to_double (95 / 100))
      else success_rates d)"

definition simulate_bot_solution :: "env \<Rightarrow> int \<Rightarrow> bool \<Rightarrow> bot_result" where
  "simulate_bot_solution e bot_id user_is_correct =
     (let d = \<bar>bot_id\<bar>;
          t = base_times d + random_randint e
      in \<lparr>bot_is_correct = (random_random e < success_rate d user_is_correct),
          bot_time_taken = max 1 t\<rparr>)"

text \<open>Python truthiness of an optional integer: \<^verbatim>\<open>None\<close> and \<^verbatim>\<open>0\<close> are false.\<close>

definition truthy :: "int option \<Rightarrow> bool" where
  "truthy v = (case v of None \<Rightarrow> False | Some n \<Rightarrow> n \<noteq> 0)"

text \<open>\<^verbatim>\<open>attempt and attempt.is_correct\<close>\<close>

definition attempt_correct :: "QuestionAttempt option \<Rightarrow> bool" where
  "attempt_correct a = (case a of None \<Rightarrow> False | Some r \<Rightarrow> is_correct r)"

text \<open>\<^verbatim>\<open>duel.opponent_id and duel.opponent_id < 0\<close>\<close>

definition bot_opponent :: "Duel \<Rightarrow> int option" where
  "bot_opponent duel =
     (case opponent_id duel of None \<Rightarrow> None | Some opp \<Rightarrow> if opp < 0 then Some opp else None)"

text \<open>Lines 217 to 242 of \<^verbatim>\<open>submit_solution\<close>: the winner, if this submission decides one.\<close>

definition determine_winner ::
  "env \<Rightarrow> int \<Rightarrow> int \<Rightarrow> Duel \<Rightarrow> bool \<Rightarrow> QuestionAttempt option \<Rightarrow> QuestionAttempt option
     \<Rightarrow> int option" where
  "determine_winner e uid t duel ok challenger_attempt opponent_attempt =
     (let first_correct =
            (if ok then
               (if uid = challenger_id duel
                then (if \<not> attempt_correct opponent_attempt then Some uid else None)
                else (if \<not> attempt_correct challenger_attempt then Some uid else None))
             else None)
      in case bot_opponent duel of
           None \<Rightarrow> first_correct
         | Some bot_id \<Rightarrow>
             (let bot = simulate_bot_solution e bot_id ok
              in if ok \<and> \<not> bot_is_correct bot then Some uid
                 else if \<not> ok \<and> bot_is_correct bot then Some bot_id
                 else if ok \<and> bot_is_correct bot then
                   (if t < bot_time_taken bot then Some uid else Some bot_id)
                 else first_correct))"

text \<open>
  \<^verbatim>\<open>challenger_attempt and (opponent_attempt or duel.opponent_id < 0)\<close>, evaluated left
  to right; comparing an absent opponent with \<^verbatim>\<open>0\<close> raises.
\<close>

definition both_submitted ::
  "Duel \<Rightarrow> QuestionAttempt option \<Rightarrow> QuestionAttempt option \<Rightarrow> error + bool" where
  "both_submitted duel challenger_attempt opponent_attempt =
     (if challenger_attempt = None then Inr False
      else if opponent_attempt \<noteq> None then Inr True
      else (case opponent_id duel of None \<Rightarrow> Inl TypeError | Some opp \<Rightarrow> Inr (opp < 0)))"

text \<open>
  \<^verbatim>\<open>int(base_xp * 0.5)\<close>: the reward is converted to a double, the product with the
  double 0.5 is exact, and the fraction is dropped.
\<close>

definition bonus_xp :: "int \<Rightarrow> int" where
  "bonus_xp base_xp = py_int (of_int (double_of_int base_xp) * to_double (5 / 10))"

definition duel_xp :: "int \<Rightarrow> int" where
  "duel_xp base_xp = base_xp + bonus_xp base_xp"

definition credit :: "int \<Rightarrow> int \<Rightarrow> User list \<Rightarrow> User list" where
  "credit uid new_xp us = map (\<lambda>u. if u_id u = uid then u\<lparr>xp := Some new_xp\<rparr> else u) us"

text \<open>
  \<^verbatim>\<open>GamificationService.award_xp\<close> on the session it shares with the duel service.
  \<open>s\<close> is the state the session has built up, \<open>committed\<close> what the database held at the
  last commit. A missing user is reported as \<open>False\<close>; adding to a \<^verbatim>\<open>NULL\<close> total
  raises inside the \<^verbatim>\<open>try\<close>, and the handler rolls the session back and reports
  \<open>False\<close>; otherwise the total is raised and the session committed.
\<close>

definition award_xp :: "db \<Rightarrow> db \<Rightarrow> int \<Rightarrow> int \<Rightarrow> bool \<times> db" where
  "award_xp committed s uid xp_amount =
     (case get_user s uid of
        None \<Rightarrow> (False, s)
      | Some user \<Rightarrow>
          (case xp user of
             None \<Rightarrow> (False, committed)
           | Some old_xp \<Rightarrow> (True, s\<lparr>users := credit uid (old_xp + xp_amount) (users s)\<rparr>)))"

record DuelResultResponse =
  r_duel_id :: int
  r_winner_id :: "int option"
  r_challenger_result :: "bool option option"
  r_opponent_result :: "bool option option"
  r_xp_awarded :: int
  r_completed_at :: datetime

definition complete_duel :: "env \<Rightarrow> int option \<Rightarrow> Duel \<Rightarrow> Duel" where
  "complete_duel e winner d =
     d\<lparr>status := COMPLETED, winner_id := winner, completed_at := Some (now_utc e)\<rparr>"

definition response :: "env \<Rightarrow> int \<Rightarrow> Duel \<Rightarrow> bool option \<Rightarrow> int option \<Rightarrow> int \<Rightarrow> db
     \<Rightarrow> DuelResultResponse" where
  "response e uid duel verdict winner xp_awarded final =
     \<lparr>r_duel_id = duel_id duel,
      r_winner_id = winner,
      r_challenger_result = (if uid = challenger_id duel then Some verdict else None),
      r_opponent_result = (if Some uid = opponent_id duel then Some verdict else None),
      r_xp_awarded = (if winner = Some uid then xp_awarded else 0),
      r_completed_at =
        (case get_duel_row final (duel_id duel) of
           None \<Rightarrow> now_utc e
         | Some d \<Rightarrow> (case completed_at d of None \<Rightarrow> now_utc e | Some c \<Rightarrow> c))\<rparr>"

text \<open>
  Lines 246 to 267: the duel is completed in the session, the winner is credited unless
  it is a bot, the session is committed and the outcome returned. \<open>s\<close> is the database
  as the call found it, \<open>pending\<close> the session with the new attempt added.
\<close>

definition finish_duel ::
  "env \<Rightarrow> int \<Rightarrow> db \<Rightarrow> db \<Rightarrow> Duel \<Rightarrow> Question \<Rightarrow> bool option \<Rightarrow> int option
     \<Rightarrow> (error + DuelResultResponse) \<times> db" where
  "finish_duel e uid s pending duel question verdict winner =
     (let completed = pending\<lparr>duels := update_row (duel_id duel) (complete_duel e winner) (duels pending)\<rparr>
      in case winner of
           None \<Rightarrow> (Inr (response e uid duel verdict winner 0 completed), completed)
         | Some w \<Rightarrow>
             if w \<noteq> 0 \<and> 0 < w then
               (let xp_awarded = duel_xp (xp_reward question);
                    final = snd (award_xp s completed w xp_awarded)
                in (Inr (response e uid duel verdict winner xp_awarded final), final))
             else (Inr (response e uid duel verdict winner 0 completed), completed))"

text \<open>
  Lines 188 to 215. The attempt is added to the session; the two queries that follow see
  it only if the session flushes before querying. The opponent's attempts are looked up
  only for a human opponent (\<^verbatim>\<open>duel.opponent_id and duel.opponent_id > 0\<close>).
\<close>

definition new_attempt :: "env \<Rightarrow> int \<Rightarrow> Question \<Rightarrow> string \<Rightarrow> bool \<Rightarrow> int \<Rightarrow> QuestionAttempt" where
  "new_attempt e uid question code ok t =
     \<lparr>a_user_id = uid, a_question_id = q_id question, user_answer = code,
      is_correct = ok, time_taken = t, a_created_at = db_now e\<rparr>"

definition add_attempt :: "QuestionAttempt \<Rightarrow> db \<Rightarrow> db" where
  "add_attempt a s = s\<lparr>attempts := attempts s @ [a]\<rparr>"

definition seen :: "env \<Rightarrow> QuestionAttempt \<Rightarrow> db \<Rightarrow> db" where
  "seen e a s = (if autoflush e then add_attempt a s else s)"

definition challenger_attempt :: "db \<Rightarrow> Duel \<Rightarrow> QuestionAttempt option" where
  "challenger_attempt s duel =
     latest_attempt s (challenger_id duel) (question_id duel) (created_at duel)"

definition opponent_attempt :: "db \<Rightarrow> Duel \<Rightarrow> QuestionAttempt option" where
  "opponent_attempt s duel =
     (case opponent_id duel of
        None \<Rightarrow> None
      | Some opp \<Rightarrow>
          if 0 < opp then latest_attempt s opp (question_id duel) (created_at duel) else None)"

text \<open>Lines 188 to 267, after the judge has returned its verdict.\<close>

definition adjudicate ::
  "env \<Rightarrow> int \<Rightarrow> string \<Rightarrow> int \<Rightarrow> db \<Rightarrow> Duel \<Rightarrow> Question \<Rightarrow> bool option
     \<Rightarrow> (error + DuelResultResponse) \<times> db" where
  "adjudicate e uid code t s duel question verdict =
     (let ok = (verdict = Some True);
          attempt = new_attempt e uid question code ok t;
          pending = add_attempt attempt s;
          ca = challenger_attempt (seen e attempt s) duel;
          oa = opponent_attempt (seen e attempt s) duel;
          winner = determine_winner e uid t duel ok ca oa
      in if truthy winner then finish_duel e uid s pending duel question verdict winner
         else
           (case both_submitted duel ca oa of
              Inl err \<Rightarrow> (Inl err, s)
            | Inr True \<Rightarrow> finish_duel e uid s pending duel question verdict winner
            | Inr False \<Rightarrow> (Inr (response e uid duel verdict winner 0 pending), pending)))"

definition submit_solution ::
  "env \<Rightarrow> int \<Rightarrow> int \<Rightarrow> string \<Rightarrow> string \<Rightarrow> int \<Rightarrow> db
     \<Rightarrow> (error + DuelResultResponse) \<times> db" where
  "submit_solution e did uid code language t s =
     (case get_duel_row s did of
        None \<Rightarrow> (Inl Duel_not_found, s)
      | Some duel \<Rightarrow>
          if status duel \<noteq> ACTIVE then (Inl Duel_is_not_active, s)
          else if challenger_id duel \<noteq> uid \<and> opponent_id duel \<noteq> Some uid
          then (Inl Not_a_participant, s)
          else if status duel = COMPLETED then (Inl Duel_is_already_completed, s)
          else
            (case get_question s (question_id duel) of
               None \<Rightarrow> (Inl Question_not_found, s)
             | Some question \<Rightarrow>
                 (case execute_code e code language (correct_answer question) of
                    ExecRaises \<Rightarrow> (Inl Execution_failed, s)
                  | ExecResult verdict \<Rightarrow> adjudicate e uid code t s duel question verdict)))"

section \<open>Janitor\<close>

definition cleanup_old_duels :: "env \<Rightarrow> db \<Rightarrow> int \<times> db" where
  "cleanup_old_duels e s =
     (let cutoff_time = instant (now_utc e) - minutes 5;
          waiting_duels = filter (\<lambda>d. status d = WAITING) (duels s);
          old_duels = filter (\<lambda>d. instant (assume_utc (created_at d)) < cutoff_time) waiting_duels
      in (int (length old_duels),
          s\<lparr>duels := fold (\<lambda>d ds. delete_row (duel_id d) ds) old_duels (duels s)\<rparr>))"

text \<open>
  Whether crediting \<open>uid\<close> raises inside \<^verbatim>\<open>award_xp\<close>: the user row exists and its
  \<^verbatim>\<open>xp\<close> is \<^verbatim>\<open>NULL\<close>.
\<close>

definition award_raises :: "db \<Rightarrow> int \<Rightarrow> bool" where
  "award_raises s uid = (case get_user s uid of None \<Rightarrow> False | Some u \<Rightarrow> xp u = None)"

section \<open>Reachable stores\<close>

text \<open>
  \<^verbatim>\<open>QuestionCreate.validate_difficulty\<close> of \<^verbatim>\<open>schemas.py\<close> admits difficulties 1 to 5.
\<close>

definition valid_questions :: "db \<Rightarrow> bool" where
  "valid_questions s \<longleftrightarrow> (\<forall>q \<in> set (questions s). 1 \<le> difficulty q \<and> difficulty q \<le> 5)"

text \<open>
  The stores the engine can reach: from a store without duels, by the operations of the
  duel service with any arguments, while the rest of the application changes the other
  tables and keeps the questions valid.
\<close>

inductive reachable :: "db \<Rightarrow> bool" where
  no_duels: "duels s = [] \<Longrightarrow> valid_questions s \<Longrightarrow> reachable s"
| other_tables: "reachable s \<Longrightarrow> duels s' = duels s \<Longrightarrow> valid_questions s' \<Longrightarrow> reachable s'"
| create: "reachable s \<Longrightarrow> reachable (snd (create_duel e qid uid s))"
| join: "reachable s \<Longrightarrow> reachable (snd (join_duel did uid s))"
| submit: "reachable s \<Longrightarrow> reachable (snd (submit_solution e did uid code language t s))"
| matchmaking: "reachable s \<Longrightarrow> reachable (snd (attempt_matchmaking e did s))"
| cleanup: "reachable s \<Longrightarrow> reachable (snd (cleanup_old_duels e s))"

text \<open>No two rows with different ids are open duels of the same user.\<close>

definition exclusive :: "Duel list \<Rightarrow> bool" where
  "exclusive ds \<longleftrightarrow>
     (\<forall>p>0. \<forall>d1 \<in> set ds. \<forall>d2 \<in> set ds.
        open_duel_of p d1 \<longrightarrow> open_duel_of p d2 \<longrightarrow> duel_id d1 = duel_id d2)"

section \<open>Example data\<close>

text \<open>
  The fixtures of \<^verbatim>\<open>test_duels.py\<close>: two users, one code question of difficulty 3 and
  reward 30, a judge that accepts the expected output, and one duel of user 1.
\<close>

definition judge :: "string \<Rightarrow> string \<Rightarrow> string \<Rightarrow> exec_outcome" where
  "judge code language expected = ExecResult (Some (code = expected))"

definition env0 :: env where
  "env0 = \<lparr>autoflush = False, db_now = \<lparr>wall = seconds 100, tzinfo = None\<rparr>,
           py_now = seconds 100, execute_code = judge,
           random_random = 99 / 100, random_randint = 0\<rparr>"

definition question1 :: Question where
  "question1 = \<lparr>q_id = 1, q_type = CODE, correct_answer = ''42'', difficulty = 3, xp_reward = 30\<rparr>"

definition user1 :: User where
  "user1 = \<lparr>u_id = 1, username = ''challenger'', xp = Some 100\<rparr>"

definition user2 :: User where
  "user2 = \<lparr>u_id = 2, username = ''opponent'', xp = Some 150\<rparr>"

definition duel1 :: "int option \<Rightarrow> DuelStatusEnum \<Rightarrow> Duel" where
  "duel1 opp st =
     \<lparr>duel_id = 1, challenger_id = 1, opponent_id = opp, question_id = 1, status = st,
      winner_id = None, created_at = \<lparr>wall = 0, tzinfo = None\<rparr>, completed_at = None\<rparr>"

definition wrong_attempt :: "int \<Rightarrow> QuestionAttempt" where
  "wrong_attempt uid =
     \<lparr>a_user_id = uid, a_question_id = 1, user_answer = ''41'', is_correct = False,
      time_taken = 7, a_created_at = \<lparr>wall = seconds 50, tzinfo = None\<rparr>\<rparr>"

definition store1 :: "QuestionAttempt list \<Rightarrow> Duel list \<Rightarrow> db" where
  "store1 as ds = \<lparr>users = [user1, user2], questions = [question1], attempts = as, duels = ds\<rparr>"

section \<open>Values of the floats\<close>

text \<open>
  The success rates as doubles. With the boost the tier-3 rate is
  \<^verbatim>\<open>0.7 + 0.2 = 0.8999999999999999\<close>, a tie of the rounding that goes to the even
  significand.
\<close>

lemma success_rate_table:
  "success_rate 1 True = 5404319552844595 / 18014398509481984"
  "success_rate 2 True = 1 / 2"
  "success_rate 3 True = 3152519739159347 / 4503599627370496"
  "success_rate 4 True = 7656119366529843 / 9007199254740992"
  "success_rate 5 True = 4278419646001971 / 4503599627370496"
  "success_rate 1 False = 1 / 2"
  "success_rate 2 False = 3152519739159347 / 4503599627370496"
  "success_rate 3 False = 2026619832316723 / 2251799813685248"
  "success_rate 4 False = 4278419646001971 / 4503599627370496"
  "success_rate 5 False = 4278419646001971 / 4503599627370496"
  by code_simp+

lemma to_double_half: "to_double (5 / 10) = 1 / 2" "to_double (1 / 2) = 1 / 2"
  by code_simp+

text \<open>An integer below \<open>2 ^ 53\<close> in size is a double, and its half loses the fraction only.\<close>

lemma bit_length_le: "n < 2 ^ k \<Longrightarrow> bit_length n \<le> k"
proof (induction k arbitrary: n)
  case 0
  then show ?case by (simp add: bit_length.simps)
next
  case (Suc k)
  show ?case
  proof (cases "n \<le> 0")
    case True
    then show ?thesis by (simp add: bit_length.simps)
  next
    case False
    from Suc.prems have "n div 2 < 2 ^ k" by simp
    from Suc.IH[OF this] False show ?thesis
      by (subst bit_length.simps) simp
  qed
qed

lemma double_of_int_exact: "\<bar>n\<bar> < 2 ^ 53 \<Longrightarrow> double_of_int n = n"
  using bit_length_le[of "\<bar>n\<bar>" 53] by (simp add: double_of_int_def Let_def)

lemma bonus_xp_exact:
  assumes "\<bar>b\<bar> < 2 ^ 53"
  shows "bonus_xp b = (if 0 \<le> b then b div 2 else - ((- b) div 2))"
proof -
  have half: "rat_of_int b * (1 / 2) = rat_of_int b / rat_of_int 2" by simp
  have fl: "\<lfloor>rat_of_int b / rat_of_int 2\<rfloor> = b div 2"
    by (rule floor_divide_of_int_eq)
  have "\<lceil>rat_of_int b / rat_of_int 2\<rceil> = - \<lfloor>rat_of_int (- b) / rat_of_int 2\<rfloor>"
    by (simp add: ceiling_def)
  also have "\<dots> = - ((- b) div 2)"
    by (simp only: floor_divide_of_int_eq)
  finally have ce: "\<lceil>rat_of_int b / rat_of_int 2\<rceil> = - ((- b) div 2)" .
  have sign: "0 \<le> rat_of_int b / rat_of_int 2 \<longleftrightarrow> 0 \<le> b" by simp
  show ?thesis
    unfolding bonus_xp_def double_of_int_exact[OF assms] to_double_half half py_int_def fl ce sign
    by simp
qed

lemma duel_xp_30: "duel_xp 30 = 45"
  by (simp add: duel_xp_def bonus_xp_exact)

lemma duel_xp_25: "duel_xp 25 = 37"
  by (simp add: duel_xp_def bonus_xp_exact)

text \<open>
  From \<open>2 ^ 53\<close> on the conversion rounds: \<open>2 ^ 54 + 3\<close> becomes \<open>2 ^ 54 + 4\<close>, and
  the bonus is not the half with its fraction dropped.
\<close>

lemma bonus_xp_rounds:
  "double_of_int 18014398509481987 = 18014398509481988"
  "bonus_xp 18014398509481987 = 9007199254740994"
  "18014398509481987 div 2 = (9007199254740993 :: int)"
  by code_simp+

section \<open>Rows, queries and the phases of a submission\<close>

lemma find_update_row:
  assumes "\<And>d. duel_id (f d) = duel_id d"
  shows "find (\<lambda>d. duel_id d = i) (update_row i f ds) = map_option f (find (\<lambda>d. duel_id d = i) ds)"
  by (induction ds) (simp_all add: update_row_def assms)

lemma duel_id_complete_duel [simp]: "duel_id (complete_duel e w d) = duel_id d"
  by (simp add: complete_duel_def)

lemma duel_id_activate [simp]: "duel_id (activate opp d) = duel_id d"
  by (simp add: activate_def)

lemma find_duel_id: "find (\<lambda>d. duel_id d = i) ds = Some d \<Longrightarrow> duel_id d = i"
  by (induction ds) (auto split: if_splits)

lemma get_duel_row_id: "get_duel_row s i = Some d \<Longrightarrow> duel_id d = i"
  unfolding get_duel_row_def by (rule find_duel_id)

text \<open>An attempt of one user does not show in the query for another user.\<close>

lemma latest_attempt_add_other:
  "a_user_id a \<noteq> u \<Longrightarrow> latest_attempt (add_attempt a s) u q since = latest_attempt s u q since"
  by (simp add: latest_attempt_def attempts_since_def add_attempt_def)

lemma latest_attempt_seen_other:
  "a_user_id a \<noteq> u \<Longrightarrow> latest_attempt (seen e a s) u q since = latest_attempt s u q since"
  by (simp add: seen_def latest_attempt_add_other)

text \<open>Past its four checks and the judge, a submission is adjudicated.\<close>

lemma submit_solution_adjudicate:
  assumes "get_duel_row s did = Some duel" "status duel = ACTIVE"
    and "challenger_id duel = uid \<or> opponent_id duel = Some uid"
    and "get_question s (question_id duel) = Some question"
    and "execute_code e code language (correct_answer question) = ExecResult verdict"
  shows "submit_solution e did uid code language t s = adjudicate e uid code t s duel question verdict"
  using assms by (auto simp: submit_solution_def)

lemma adjudicate_winner:
  assumes "determine_winner e uid t duel (verdict = Some True)
             (challenger_attempt (seen e (new_attempt e uid question code (verdict = Some True) t) s) duel)
             (opponent_attempt (seen e (new_attempt e uid question code (verdict = Some True) t) s) duel)
           = Some w"
    and "w \<noteq> 0"
  shows "adjudicate e uid code t s duel question verdict =
           finish_duel e uid s (add_attempt (new_attempt e uid question code (verdict = Some True) t) s)
             duel question verdict (Some w)"
  using assms by (simp add: adjudicate_def Let_def truthy_def)

lemma get_duel_row_completed:
  assumes "get_duel_row s did = Some duel"
  shows "get_duel_row
           (add_attempt a s\<lparr>duels := update_row (duel_id duel) (complete_duel e w)
                                        (duels (add_attempt a s))\<rparr>) did
         = Some (complete_duel e w duel)"
  using assms get_duel_row_id[OF assms]
  by (simp add: get_duel_row_def add_attempt_def find_update_row)

lemma get_user_completed [simp]:
  "get_user (add_attempt a s\<lparr>duels := ds\<rparr>) = get_user s"
  by (simp add: get_user_def add_attempt_def fun_eq_iff)

lemma finish_duel_winner_response:
  "\<exists>r s'. finish_duel e uid s p duel question verdict (Some w) = (Inr r, s') \<and> r_winner_id r = Some w"
  by (simp add: finish_duel_def Let_def response_def)

text \<open>A human winner stays on record unless crediting them raises.\<close>

lemma finish_duel_human_winner:
  assumes d: "get_duel_row s did = Some duel" and w: "0 < w" and nr: "\<not> award_raises s w"
  shows "\<exists>r s'. finish_duel e uid s (add_attempt a s) duel question verdict (Some w) = (Inr r, s')
           \<and> r_winner_id r = Some w \<and> get_duel_row s' did = Some (complete_duel e (Some w) duel)"
proof -
  let ?c = "add_attempt a s\<lparr>duels := update_row (duel_id duel) (complete_duel e (Some w))
                                        (duels (add_attempt a s))\<rparr>"
  have row: "get_duel_row ?c did = Some (complete_duel e (Some w) duel)"
    by (rule get_duel_row_completed[OF d])
  have "get_duel_row (snd (award_xp s ?c w amt)) did = Some (complete_duel e (Some w) duel)" for amt
    using nr row by (auto simp: award_xp_def award_raises_def get_duel_row_def split: option.splits)
  then show ?thesis using w
    by (simp add: finish_duel_def Let_def response_def)
qed

lemma finish_duel_bot_winner:
  assumes d: "get_duel_row s did = Some duel" and w: "w < 0"
  shows "\<exists>r s'. finish_duel e uid s (add_attempt a s) duel question verdict (Some w) = (Inr r, s')
           \<and> r_winner_id r = Some w \<and> get_duel_row s' did = Some (complete_duel e (Some w) duel)"
  using w get_duel_row_completed[OF d, where e = e and w = "Some w" and a = a]
  by (simp add: finish_duel_def Let_def response_def)

lemma bot_time_at_least_one: "1 \<le> bot_time_taken (simulate_bot_solution e b ok)"
  by (simp add: simulate_bot_solution_def Let_def)

section \<open>Monotonic completion\<close>

text \<open>
  C3. A submission against a duel that is not ACTIVE (WAITING or COMPLETED) is rejected with
  "Duel is not active", and the store, hence the duel's status, winner and completion
  time, is returned as it was.
\<close>

theorem C3_inactive_duel_rejects_submit:
  assumes "get_duel_row s did = Some duel" and "status duel \<noteq> ACTIVE"
  shows "submit_solution e did uid code language t s = (Inl Duel_is_not_active, s)"
  using assms by (simp add: submit_solution_def)

theorem C3_inactive_duel_rejects_submit_witness:
  "get_duel_row (store1 [] [duel1 (Some 2) COMPLETED]) 1 = Some (duel1 (Some 2) COMPLETED) \<and>
   status (duel1 (Some 2) COMPLETED) \<noteq> ACTIVE \<and>
   submit_solution env0 1 1 ''42'' ''python'' 5 (store1 [] [duel1 (Some 2) COMPLETED])
     = (Inl Duel_is_not_active, store1 [] [duel1 (Some 2) COMPLETED])"
  using C3_inactive_duel_rejects_submit
          [of "store1 [] [duel1 (Some 2) COMPLETED]" 1 "duel1 (Some 2) COMPLETED"
              env0 1 "''42''" "''python''" 5]
  by (simp add: get_duel_row_def store1_def duel1_def)

section \<open>First correct submission wins\<close>

text \<open>
  In an ACTIVE duel between two distinct human sides, a submission the judge finds
  correct, made while the other side's latest attempt on the question since the duel was
  created is absent or incorrect, takes the completing branch (lines 246 to 248) with the
  submitter as winner, whatever the elapsed times are, and the outcome names the
  submitter. Unless crediting the winner raises, the duel is then stored COMPLETED with
  the submitter as winner and the completion time set.
\<close>

lemma first_correct_wins_unless_award_raises:
  assumes duel: "get_duel_row s did = Some duel" "status duel = ACTIVE"
      and humans: "opponent_id duel = Some opp" "0 < opp" "0 < challenger_id duel"
                  "challenger_id duel \<noteq> opp"
      and side: "(uid = challenger_id duel \<and> other = opp) \<or> (uid = opp \<and> other = challenger_id duel)"
      and q: "get_question s (question_id duel) = Some question"
      and verdict: "execute_code e code language (correct_answer question) = ExecResult (Some True)"
      and other: "\<not> attempt_correct (latest_attempt s other (question_id duel) (created_at duel))"
  shows "\<exists>r s'. submit_solution e did uid code language t s = (Inr r, s') \<and>
                finish_duel e uid s (add_attempt (new_attempt e uid question code True t) s)
                  duel question (Some True) (Some uid) = (Inr r, s') \<and>
                r_winner_id r = Some uid \<and>
                (\<not> award_raises s uid \<longrightarrow>
                   get_duel_row s' did
                     = Some (duel\<lparr>status := COMPLETED, winner_id := Some uid,
                                  completed_at := Some (now_utc e)\<rparr>))"
proof -
  let ?a = "new_attempt e uid question code (Some True = Some True) t"
  have part: "challenger_id duel = uid \<or> opponent_id duel = Some uid"
    using side humans by auto
  have pos: "0 < uid" using side humans by auto
  have neq: "a_user_id ?a \<noteq> other" using side humans by (auto simp: new_attempt_def)
  have nobot: "bot_opponent duel = None" using humans by (simp add: bot_opponent_def)
  have "determine_winner e uid t duel (Some True = Some True)
          (challenger_attempt (seen e ?a s) duel) (opponent_attempt (seen e ?a s) duel) = Some uid"
    using side humans other neq nobot
    by (auto simp: determine_winner_def challenger_attempt_def opponent_attempt_def
                   latest_attempt_seen_other)
  then have "adjudicate e uid code t s duel question (Some True) =
               finish_duel e uid s (add_attempt ?a s) duel question (Some True) (Some uid)"
    using pos by (intro adjudicate_winner) auto
  then have sub: "submit_solution e did uid code language t s =
                    finish_duel e uid s (add_attempt ?a s) duel question (Some True) (Some uid)"
    using submit_solution_adjudicate[OF duel part q verdict] by simp
  obtain r s' where fin: "finish_duel e uid s (add_attempt ?a s) duel question (Some True) (Some uid) = (Inr r, s')"
      and rw: "r_winner_id r = Some uid"
    using finish_duel_winner_response[of e uid s "add_attempt ?a s" duel question "Some True" uid]
    by blast
  have "\<not> award_raises s uid \<longrightarrow>
          get_duel_row s' did
            = Some (duel\<lparr>status := COMPLETED, winner_id := Some uid, completed_at := Some (now_utc e)\<rparr>)"
  proof
    assume "\<not> award_raises s uid"
    from finish_duel_human_winner[OF duel(1) pos this, of e uid ?a question "Some True"] fin
    show "get_duel_row s' did
            = Some (duel\<lparr>status := COMPLETED, winner_id := Some uid, completed_at := Some (now_utc e)\<rparr>)"
      by (auto simp: complete_duel_def)
  qed
  with sub fin rw show ?thesis by simp
qed

text \<open>
  C1 fails when crediting the winner raises. In the ACTIVE duel of users 1 and 2 on
  question 1, user 2 has an incorrect attempt on record and user 1, whose XP total is
  \<^verbatim>\<open>NULL\<close>, submits code the judge finds correct. The outcome names user 1 as the
  winner, but the handler inside \<^verbatim>\<open>award_xp\<close> has rolled the session back: the
  store is what it was before the call, the duel still ACTIVE without winner and
  completion time.
\<close>

theorem C1_raising_award_leaves_duel_active:
  "get_duel_row ((store1 [wrong_attempt 2] [duel1 (Some 2) ACTIVE])\<lparr>users := [user1\<lparr>xp := None\<rparr>, user2]\<rparr>) 1
     = Some \<lparr>duel_id = 1, challenger_id = 1, opponent_id = Some 2, question_id = 1,
             status = ACTIVE, winner_id = None, created_at = \<lparr>wall = 0, tzinfo = None\<rparr>,
             completed_at = None\<rparr> \<and>
   execute_code env0 ''42'' ''python'' (correct_answer question1) = ExecResult (Some True) \<and>
   latest_attempt ((store1 [wrong_attempt 2] [duel1 (Some 2) ACTIVE])\<lparr>users := [user1\<lparr>xp := None\<rparr>, user2]\<rparr>)
       2 1 \<lparr>wall = 0, tzinfo = None\<rparr>
     = Some \<lparr>a_user_id = 2, a_question_id = 1, user_answer = ''41'', is_correct = False,
             time_taken = 7, a_created_at = \<lparr>wall = 50000000, tzinfo = None\<rparr>\<rparr> \<and>
   submit_solution env0 1 1 ''42'' ''python'' 5
     ((store1 [wrong_attempt 2] [duel1 (Some 2) ACTIVE])\<lparr>users := [user1\<lparr>xp := None\<rparr>, user2]\<rparr>)
   = (Inr \<lparr>r_duel_id = 1, r_winner_id = Some 1, r_challenger_result = Some (Some True),
           r_opponent_result = None, r_xp_awarded = 45,
           r_completed_at = \<lparr>wall = 100000000, tzinfo = Some 0\<rparr>\<rparr>,
      (store1 [wrong_attempt 2] [duel1 (Some 2) ACTIVE])\<lparr>users := [user1\<lparr>xp := None\<rparr>, user2]\<rparr>) \<and>
   get_duel_row
     (snd (submit_solution env0 1 1 ''42'' ''python'' 5
             ((store1 [wrong_attempt 2] [duel1 (Some 2) ACTIVE])\<lparr>users := [user1\<lparr>xp := None\<rparr>, user2]\<rparr>))) 1
     = Some \<lparr>duel_id = 1, challenger_id = 1, opponent_id = Some 2, question_id = 1,
             status = ACTIVE, winner_id = None, created_at = \<lparr>wall = 0, tzinfo = None\<rparr>,
             completed_at = None\<rparr>"
  by (simp add: submit_solution_def adjudicate_def finish_duel_def response_def Let_def
                determine_winner_def both_submitted_def truthy_def bot_opponent_def
                challenger_attempt_def opponent_attempt_def latest_attempt_def
                attempts_since_def seen_def new_attempt_def add_attempt_def attempt_correct_def
                get_duel_row_def get_question_def get_user_def update_row_def complete_duel_def
                award_xp_def duel_xp_30
                store1_def duel1_def question1_def user1_def user2_def env0_def judge_def
                wrong_attempt_def instant_def seconds_def now_utc_def)

section \<open>Bot duels: tie-break by time\<close>

text \<open>
  C4. In an ACTIVE duel against a bot, when the human's submission is correct and the
  simulated bot is correct too, the outcome names the human as winner exactly if the
  human's elapsed seconds are strictly below the bot's simulated time; otherwise the bot
  is the winner and the duel is stored COMPLETED with the bot's id as winner and the
  completion time set. When the human wins, the duel is stored COMPLETED with the human as
  winner unless crediting them raises.
\<close>

theorem C4_bot_tie_break:
  assumes duel: "get_duel_row s did = Some duel" "status duel = ACTIVE"
      and bot: "opponent_id duel = Some bot_id" "bot_id < 0"
      and human: "challenger_id duel = uid" "0 < uid"
      and q: "get_question s (question_id duel) = Some question"
      and verdict: "execute_code e code language (correct_answer question) = ExecResult (Some True)"
      and botok: "bot_is_correct (simulate_bot_solution e bot_id True)"
  shows "\<exists>r s'. submit_solution e did uid code language t s = (Inr r, s') \<and>
           (r_winner_id r = Some uid \<longleftrightarrow> t < bot_time_taken (simulate_bot_solution e bot_id True)) \<and>
           (\<not> t < bot_time_taken (simulate_bot_solution e bot_id True) \<longrightarrow>
              r_winner_id r = Some bot_id \<and>
              get_duel_row s' did
                = Some (duel\<lparr>status := COMPLETED, winner_id := Some bot_id,
                             completed_at := Some (now_utc e)\<rparr>)) \<and>
           (t < bot_time_taken (simulate_bot_solution e bot_id True) \<and> \<not> award_raises s uid \<longrightarrow>
              get_duel_row s' did
                = Some (duel\<lparr>status := COMPLETED, winner_id := Some uid,
                             completed_at := Some (now_utc e)\<rparr>))"
proof -
  let ?a = "new_attempt e uid question code (Some True = Some True) t"
  let ?bt = "bot_time_taken (simulate_bot_solution e bot_id True)"
  let ?w = "if t < ?bt then uid else bot_id"
  have part: "challenger_id duel = uid \<or> opponent_id duel = Some uid"
    using human by simp
  have isbot: "bot_opponent duel = Some bot_id" using bot by (simp add: bot_opponent_def)
  have win: "determine_winner e uid t duel (Some True = Some True) ca oa = Some ?w" for ca oa
    using isbot botok by (simp add: determine_winner_def Let_def)
  have nz: "?w \<noteq> 0" using bot human by simp
  have adj: "adjudicate e uid code t s duel question (Some True) =
               finish_duel e uid s (add_attempt ?a s) duel question (Some True) (Some ?w)"
    using win nz by (intro adjudicate_winner) auto
  have sub: "submit_solution e did uid code language t s =
               finish_duel e uid s (add_attempt ?a s) duel question (Some True) (Some ?w)"
    using submit_solution_adjudicate[OF duel part q verdict] adj by simp
  show ?thesis
  proof (cases "t < ?bt")
    case True
    obtain r s' where fin: "finish_duel e uid s (add_attempt ?a s) duel question (Some True) (Some uid) = (Inr r, s')"
        and rw: "r_winner_id r = Some uid"
      using finish_duel_winner_response[of e uid s "add_attempt ?a s" duel question "Some True" uid]
      by blast
    have "\<not> award_raises s uid \<longrightarrow>
            get_duel_row s' did
              = Some (duel\<lparr>status := COMPLETED, winner_id := Some uid, completed_at := Some (now_utc e)\<rparr>)"
    proof
      assume "\<not> award_raises s uid"
      from finish_duel_human_winner[OF duel(1) human(2) this, of e uid ?a question "Some True"] fin
      show "get_duel_row s' did
              = Some (duel\<lparr>status := COMPLETED, winner_id := Some uid, completed_at := Some (now_utc e)\<rparr>)"
        by (auto simp: complete_duel_def)
    qed
    with True sub fin rw show ?thesis by simp
  next
    case False
    from finish_duel_bot_winner[OF duel(1) bot(2), of e uid ?a question "Some True"]
    obtain r s' where fin: "finish_duel e uid s (add_attempt ?a s) duel question (Some True) (Some bot_id) = (Inr r, s')"
        and rw: "r_winner_id r = Some bot_id"
        and row: "get_duel_row s' did = Some (complete_duel e (Some bot_id) duel)" by blast
    have "bot_id \<noteq> uid" using bot human by simp
    with False sub fin rw row show ?thesis by (auto simp: complete_duel_def)
  qed
qed

text \<open>
  The tier-3 bot draws a correct outcome and 8 seconds; the human, correct after 8 seconds,
  ties and loses.
\<close>

theorem C4_bot_tie_break_witness:
  "bot_time_taken (simulate_bot_solution (env0\<lparr>random_random := 0\<rparr>) (- 3) True) = 8 \<and>
   (\<exists>r s'. submit_solution (env0\<lparr>random_random := 0\<rparr>) 1 1 ''42'' ''python'' 8
              (store1 [] [duel1 (Some (- 3)) ACTIVE]) = (Inr r, s') \<and>
           r_winner_id r = Some (- 3) \<and>
           get_duel_row s' 1
             = Some \<lparr>duel_id = 1, challenger_id = 1, opponent_id = Some (- 3), question_id = 1,
                     status = COMPLETED, winner_id = Some (- 3),
                     created_at = \<lparr>wall = 0, tzinfo = None\<rparr>,
                     completed_at = Some \<lparr>wall = 100000000, tzinfo = Some 0\<rparr>\<rparr>)"
  using C4_bot_tie_break
          [of "store1 [] [duel1 (Some (- 3)) ACTIVE]" 1 "duel1 (Some (- 3)) ACTIVE"
              "- 3" 1 question1 "env0\<lparr>random_random := 0\<rparr>" "''42''" "''python''" 8]
  by (auto simp: get_duel_row_def get_question_def store1_def duel1_def question1_def
                 env0_def judge_def simulate_bot_solution_def success_rate_table base_times_def
                 now_utc_def seconds_def)

section \<open>Bot response time\<close>

text \<open>
  C10. Every simulated bot response time is at least 1 second, whatever the tier and the
  jitter. Hence in an ACTIVE duel against a bot, a human whose submission is correct with
  0 elapsed seconds is named the winner whenever the simulated bot is correct too.
\<close>

theorem C10_bot_time_and_zero_seconds:
  "1 \<le> bot_time_taken (simulate_bot_solution e' bot_id' ok) \<and>
   (get_duel_row s did = Some duel \<longrightarrow> status duel = ACTIVE \<longrightarrow>
    opponent_id duel = Some bot_id \<longrightarrow> bot_id < 0 \<longrightarrow> challenger_id duel = uid \<longrightarrow>
    get_question s (question_id duel) = Some question \<longrightarrow>
    execute_code e code language (correct_answer question) = ExecResult (Some True) \<longrightarrow>
    bot_is_correct (simulate_bot_solution e bot_id True) \<longrightarrow>
    (\<exists>r s'. submit_solution e did uid code language 0 s = (Inr r, s') \<and> r_winner_id r = Some uid))"
proof (intro conjI impI)
  show "1 \<le> bot_time_taken (simulate_bot_solution e' bot_id' ok)"
    by (rule bot_time_at_least_one)
next
  assume duel: "get_duel_row s did = Some duel" "status duel = ACTIVE"
     and bot: "opponent_id duel = Some bot_id" "bot_id < 0"
     and human: "challenger_id duel = uid"
     and q: "get_question s (question_id duel) = Some question"
     and verdict: "execute_code e code language (correct_answer question) = ExecResult (Some True)"
     and botok: "bot_is_correct (simulate_bot_solution e bot_id True)"
  let ?a = "new_attempt e uid question code (Some True = Some True) 0"
  have part: "challenger_id duel = uid \<or> opponent_id duel = Some uid"
    using human by simp
  have isbot: "bot_opponent duel = Some bot_id" using bot by (simp add: bot_opponent_def)
  have lt: "0 < bot_time_taken (simulate_bot_solution e bot_id True)"
    using bot_time_at_least_one[of e bot_id True] by simp
  have win: "determine_winner e uid 0 duel (Some True = Some True) ca oa = Some uid" for ca oa
    using isbot botok lt by (simp add: determine_winner_def Let_def)
  have adj: "\<exists>r s'. adjudicate e uid code 0 s duel question (Some True) = (Inr r, s') \<and>
                     r_winner_id r = Some uid"
  proof (cases "uid = 0")
    case False
    then have "adjudicate e uid code 0 s duel question (Some True) =
               finish_duel e uid s (add_attempt ?a s) duel question (Some True) (Some uid)"
      using win by (intro adjudicate_winner) auto
    then show ?thesis using finish_duel_winner_response by simp
  next
    case True
    then show ?thesis using win bot
      by (auto simp: adjudicate_def Let_def truthy_def both_submitted_def finish_duel_def
                     response_def split: sum.splits bool.splits)
  qed
  then show "\<exists>r s'. submit_solution e did uid code language 0 s = (Inr r, s') \<and>
                     r_winner_id r = Some uid"
    using submit_solution_adjudicate[OF duel part q verdict] by simp
qed

text \<open>
  The tier-5 bot with the lowest jitter takes 1 second, and the tier-3 bot loses to a
  correct human who reports 0 seconds.
\<close>

theorem C10_bot_time_and_zero_seconds_witness:
  "1 \<le> bot_time_taken (simulate_bot_solution (env0\<lparr>random_randint := - 2\<rparr>) (- 5) True) \<and>
   (\<exists>r s'. submit_solution (env0\<lparr>random_random := 0\<rparr>) 1 1 ''42'' ''python'' 0
              (store1 [] [duel1 (Some (- 3)) ACTIVE]) = (Inr r, s') \<and>
           r_winner_id r = Some 1)"
  using C10_bot_time_and_zero_seconds
          [of "env0\<lparr>random_randint := - 2\<rparr>" "- 5" True
              "store1 [] [duel1 (Some (- 3)) ACTIVE]" 1 "duel1 (Some (- 3)) ACTIVE"
              "- 3" 1 question1 "env0\<lparr>random_random := 0\<rparr>" "''42''" "''python''"]
  by (simp add: get_duel_row_def get_question_def store1_def duel1_def question1_def
                env0_def judge_def simulate_bot_solution_def success_rate_table base_times_def)

section \<open>Timestamps\<close>

text \<open>Reading a naive timestamp as UTC does not move the instant it denotes here.\<close>

lemma instant_assume_utc [simp]: "instant (assume_utc dt) = instant dt"
  by (simp add: instant_def assume_utc_def)

lemma instant_now_utc [simp]: "instant (now_utc e) = py_now e"
  by (simp add: instant_def now_utc_def)

section \<open>Bot fallback of the matchmaker\<close>

text \<open>
  C6. For a WAITING duel with no waiting peer on the same question: once more than 30
  seconds have passed since its creation, matchmaking gives it the bot whose id is the
  negated difficulty of its question (a question of positive difficulty, 1 to 5 in the
  application), makes it ACTIVE and returns true; up to 30 seconds it returns false and
  leaves the store as it was.
\<close>

theorem C6_bot_after_grace_period:
  assumes duel: "get_duel_row s did = Some duel" "status duel = WAITING"
      and nopeer: "potential_opponent_duel s duel = None"
  shows "(seconds 30 < py_now e - instant (created_at duel) \<longrightarrow>
            get_question s (question_id duel) = Some question \<longrightarrow> 0 < difficulty question \<longrightarrow>
            attempt_matchmaking e did s
              = (True, s\<lparr>duels := update_row did (activate (- difficulty question)) (duels s)\<rparr>) \<and>
            get_duel_row (snd (attempt_matchmaking e did s)) did
              = Some (duel\<lparr>opponent_id := Some (- difficulty question), status := ACTIVE\<rparr>)) \<and>
         (py_now e - instant (created_at duel) \<le> seconds 30 \<longrightarrow>
            attempt_matchmaking e did s = (False, s))"
proof (intro conjI impI)
  assume old: "seconds 30 < py_now e - instant (created_at duel)"
     and q: "get_question s (question_id duel) = Some question"
     and diff: "0 < difficulty question"
  have id: "duel_id duel = did" by (rule get_duel_row_id[OF duel(1)])
  show m: "attempt_matchmaking e did s
             = (True, s\<lparr>duels := update_row did (activate (- difficulty question)) (duels s)\<rparr>)"
    using duel nopeer old q diff id
    by (simp add: attempt_matchmaking_def assign_bot_opponent_def)
  show "get_duel_row (snd (attempt_matchmaking e did s)) did
          = Some (duel\<lparr>opponent_id := Some (- difficulty question), status := ACTIVE\<rparr>)"
    using duel(1) by (simp add: m get_duel_row_def find_update_row activate_def)
next
  assume "py_now e - instant (created_at duel) \<le> seconds 30"
  then show "attempt_matchmaking e did s = (False, s)"
    using duel nopeer by (simp add: attempt_matchmaking_def)
qed

text \<open>
  Scenario A: the duel of user 1 on the question of difficulty 3 is 100 seconds old and
  gets the bot -3; at 30 seconds precisely nothing happens.
\<close>

theorem C6_bot_after_grace_period_witness:
  "attempt_matchmaking env0 1 (store1 [] [duel1 None WAITING])
     = (True, store1 [] [duel1 (Some (- 3)) ACTIVE]) \<and>
   attempt_matchmaking (env0\<lparr>py_now := seconds 30\<rparr>) 1 (store1 [] [duel1 None WAITING])
     = (False, store1 [] [duel1 None WAITING])"
  using C6_bot_after_grace_period
          [of "store1 [] [duel1 None WAITING]" 1 "duel1 None WAITING" env0 question1]
        C6_bot_after_grace_period
          [of "store1 [] [duel1 None WAITING]" 1 "duel1 None WAITING"
              "env0\<lparr>py_now := seconds 30\<rparr>" question1]
  by (simp add: get_duel_row_def get_question_def potential_opponent_duel_def store1_def
                duel1_def question1_def env0_def instant_def seconds_def update_row_def
                activate_def)

section \<open>Cleanup of old waiting duels\<close>

lemma fold_delete_row:
  "fold (\<lambda>d ds. delete_row (duel_id d) ds) old ds = filter (\<lambda>d. duel_id d \<notin> duel_id ` set old) ds"
proof (induction old arbitrary: ds)
  case Nil
  show ?case by simp
next
  case (Cons x old)
  have "fold (\<lambda>d ds. delete_row (duel_id d) ds) (x # old) ds
          = filter (\<lambda>d. duel_id d \<notin> duel_id ` set old) (delete_row (duel_id x) ds)"
    by (simp add: Cons.IH)
  also have "\<dots> = filter (\<lambda>d. duel_id d \<notin> duel_id ` set (x # old)) ds"
    by (auto simp: delete_row_def intro: filter_cong)
  finally show ?case .
qed

lemma distinct_ids_member:
  assumes "distinct (map duel_id ds)" and "d \<in> set ds"
  shows "duel_id d \<in> duel_id ` set (filter P ds) \<longleftrightarrow> P d"
proof -
  have inj: "inj_on duel_id (set ds)"
    using assms(1) by (simp add: distinct_map)
  show ?thesis
  proof
    assume "duel_id d \<in> duel_id ` set (filter P ds)"
    then obtain x where x: "x \<in> set ds" "P x" "duel_id d = duel_id x" by auto
    with inj assms(2) have "d = x" by (auto dest: inj_onD)
    with x show "P d" by simp
  next
    assume "P d"
    with assms(2) show "duel_id d \<in> duel_id ` set (filter P ds)" by auto
  qed
qed

lemma cleanup_old_duels_filter:
  assumes "distinct (map duel_id (duels s))"
  shows "cleanup_old_duels e s =
           (int (length (filter (\<lambda>d. status d = WAITING \<and> minutes 5 < py_now e - instant (created_at d))
                           (duels s))),
            s\<lparr>duels := filter (\<lambda>d. \<not> (status d = WAITING \<and> minutes 5 < py_now e - instant (created_at d)))
                          (duels s)\<rparr>)"
proof -
  let ?P = "\<lambda>d. status d = WAITING \<and> minutes 5 < py_now e - instant (created_at d)"
  have old: "filter (\<lambda>d. instant (assume_utc (created_at d)) < instant (now_utc e) - minutes 5)
               (filter (\<lambda>d. status d = WAITING) (duels s)) = filter ?P (duels s)"
    by (auto intro: filter_cong)
  have "filter (\<lambda>d. duel_id d \<notin> duel_id ` set (filter ?P (duels s))) (duels s)
          = filter (\<lambda>d. \<not> ?P d) (duels s)"
    by (rule filter_cong[OF refl]) (simp only: distinct_ids_member[OF assms])
  then show ?thesis
    unfolding cleanup_old_duels_def Let_def old fold_delete_row by simp
qed

text \<open>
  C8. With duel ids unique (the primary key), cleanup deletes exactly the WAITING duels
  created more than 5 minutes before the clock reading, a timestamp without time zone
  counting as UTC; it returns their number; all other rows, so every ACTIVE and COMPLETED
  duel, stay as they are. A second cleanup, with no duel created in between, returns the
  number of waiting duels that have passed the age of 5 minutes between the two clock
  readings; at the same clock reading it returns 0 and changes nothing.
\<close>

theorem C8_cleanup_reaps_old_waiting_duels:
  assumes "distinct (map duel_id (duels s))"
  shows "cleanup_old_duels e s =
           (int (length (filter (\<lambda>d. status d = WAITING \<and> minutes 5 < py_now e - instant (created_at d))
                           (duels s))),
            s\<lparr>duels := filter (\<lambda>d. \<not> (status d = WAITING \<and> minutes 5 < py_now e - instant (created_at d)))
                          (duels s)\<rparr>) \<and>
         filter (\<lambda>d. status d \<noteq> WAITING) (duels (snd (cleanup_old_duels e s)))
           = filter (\<lambda>d. status d \<noteq> WAITING) (duels s) \<and>
         fst (cleanup_old_duels e' (snd (cleanup_old_duels e s)))
           = int (length (filter (\<lambda>d. status d = WAITING \<and>
                                      \<not> minutes 5 < py_now e - instant (created_at d) \<and>
                                      minutes 5 < py_now e' - instant (created_at d)) (duels s))) \<and>
         cleanup_old_duels e (snd (cleanup_old_duels e s)) = (0, snd (cleanup_old_duels e s))"
proof -
  let ?P = "\<lambda>e d. status d = WAITING \<and> minutes 5 < py_now e - instant (created_at d)"
  let ?s' = "s\<lparr>duels := filter (\<lambda>d. \<not> ?P e d) (duels s)\<rparr>"
  have first: "cleanup_old_duels e s = (int (length (filter (?P e) (duels s))), ?s')"
    by (rule cleanup_old_duels_filter[OF assms])
  have kept: "filter (\<lambda>d. status d \<noteq> WAITING) (duels ?s') = filter (\<lambda>d. status d \<noteq> WAITING) (duels s)"
    by (auto intro: filter_cong)
  have ids: "distinct (map duel_id (duels ?s'))"
    using assms by (simp add: distinct_map_filter)
  have later: "fst (cleanup_old_duels e' ?s')
                 = int (length (filter (\<lambda>d. status d = WAITING \<and>
                                            \<not> minutes 5 < py_now e - instant (created_at d) \<and>
                                            minutes 5 < py_now e' - instant (created_at d)) (duels s)))"
    unfolding cleanup_old_duels_filter[OF ids, of e']
    by (auto intro!: arg_cong[where f = length] filter_cong)
  from cleanup_old_duels_filter[OF ids, of e]
  have second: "cleanup_old_duels e ?s' = (0, ?s')"
    by simp
  show ?thesis
    using first kept later second by simp
qed

text \<open>
  Scenario D and the test of \<^verbatim>\<open>test_duels.py\<close>: of a waiting duel 10 minutes old, a
  waiting duel 2 minutes old and an active duel 10 minutes old, the first alone is deleted.
\<close>

theorem C8_cleanup_reaps_old_waiting_duels_witness:
  "cleanup_old_duels (env0\<lparr>py_now := minutes 10\<rparr>)
     (store1 [] [duel1 None WAITING,
                 (duel1 None WAITING)\<lparr>duel_id := 2, challenger_id := 2,
                                        created_at := \<lparr>wall = minutes 8, tzinfo = Some 0\<rparr>\<rparr>,
                 (duel1 (Some (- 3)) ACTIVE)\<lparr>duel_id := 3, challenger_id := 3\<rparr>])
   = (1, store1 [] [(duel1 None WAITING)\<lparr>duel_id := 2, challenger_id := 2,
                                          created_at := \<lparr>wall = minutes 8, tzinfo = Some 0\<rparr>\<rparr>,
                    (duel1 (Some (- 3)) ACTIVE)\<lparr>duel_id := 3, challenger_id := 3\<rparr>]) \<and>
   cleanup_old_duels (env0\<lparr>py_now := minutes 10\<rparr>)
     (store1 [] [(duel1 None WAITING)\<lparr>duel_id := 2, challenger_id := 2,
                                       created_at := \<lparr>wall = minutes 8, tzinfo = Some 0\<rparr>\<rparr>,
                 (duel1 (Some (- 3)) ACTIVE)\<lparr>duel_id := 3, challenger_id := 3\<rparr>])
   = (0, store1 [] [(duel1 None WAITING)\<lparr>duel_id := 2, challenger_id := 2,
                                          created_at := \<lparr>wall = minutes 8, tzinfo = Some 0\<rparr>\<rparr>,
                    (duel1 (Some (- 3)) ACTIVE)\<lparr>duel_id := 3, challenger_id := 3\<rparr>])"
proof -
  let ?s = "store1 [] [duel1 None WAITING,
                 (duel1 None WAITING)\<lparr>duel_id := 2, challenger_id := 2,
                                        created_at := \<lparr>wall = minutes 8, tzinfo = Some 0\<rparr>\<rparr>,
                 (duel1 (Some (- 3)) ACTIVE)\<lparr>duel_id := 3, challenger_id := 3\<rparr>]"
  have ids: "distinct (map duel_id (duels ?s))"
    by (simp add: store1_def duel1_def)
  note c8 = C8_cleanup_reaps_old_waiting_duels [OF ids, of "env0\<lparr>py_now := minutes 10\<rparr>"]
  from c8 have first: "cleanup_old_duels (env0\<lparr>py_now := minutes 10\<rparr>) ?s = (1, snd (cleanup_old_duels (env0\<lparr>py_now := minutes 10\<rparr>) ?s))"
    by (simp add: store1_def duel1_def env0_def instant_def minutes_def seconds_def)
  from c8 have state: "snd (cleanup_old_duels (env0\<lparr>py_now := minutes 10\<rparr>) ?s)
      = store1 [] [(duel1 None WAITING)\<lparr>duel_id := 2, challenger_id := 2,
                                          created_at := \<lparr>wall = minutes 8, tzinfo = Some 0\<rparr>\<rparr>,
                    (duel1 (Some (- 3)) ACTIVE)\<lparr>duel_id := 3, challenger_id := 3\<rparr>]"
    by (simp add: store1_def duel1_def env0_def instant_def minutes_def seconds_def)
  from c8 have again: "cleanup_old_duels (env0\<lparr>py_now := minutes 10\<rparr>)
                         (snd (cleanup_old_duels (env0\<lparr>py_now := minutes 10\<rparr>) ?s))
                       = (0, snd (cleanup_old_duels (env0\<lparr>py_now := minutes 10\<rparr>) ?s))"
    by (rule conjunct2 [THEN conjunct2, THEN conjunct2])
  show ?thesis
    using first again unfolding state by simp
qed

section \<open>Submissions that decide no winner\<close>

text \<open>
  Without a winner the outcome of \<open>adjudicate\<close> depends on whether both sides have
  submitted (line 245).
\<close>

lemma adjudicate_no_winner:
  assumes res: "adjudicate e uid code t s duel question verdict = (Inr r, s')"
      and none: "r_winner_id r = None"
  shows "s' = (if challenger_attempt (seen e (new_attempt e uid question code (verdict = Some True) t) s) duel \<noteq> None \<and>
                  (opponent_attempt (seen e (new_attempt e uid question code (verdict = Some True) t) s) duel \<noteq> None \<or>
                   bot_opponent duel \<noteq> None)
               then add_attempt (new_attempt e uid question code (verdict = Some True) t) s
                      \<lparr>duels := update_row (duel_id duel) (complete_duel e None)
                                  (duels (add_attempt (new_attempt e uid question code (verdict = Some True) t) s))\<rparr>
               else add_attempt (new_attempt e uid question code (verdict = Some True) t) s)"
proof -
  let ?a = "new_attempt e uid question code (verdict = Some True) t"
  let ?w = "determine_winner e uid t duel (verdict = Some True)
              (challenger_attempt (seen e ?a s) duel) (opponent_attempt (seen e ?a s) duel)"
  have fin: "finish_duel e uid s p duel question verdict w = (Inr r, s') \<Longrightarrow> w = None" for p w
    using none by (auto simp: finish_duel_def Let_def response_def split: option.splits if_splits)
  have fin_none: "finish_duel e uid s p duel question verdict None
                    = (Inr (response e uid duel verdict None 0
                              (p\<lparr>duels := update_row (duel_id duel) (complete_duel e None) (duels p)\<rparr>)),
                       p\<lparr>duels := update_row (duel_id duel) (complete_duel e None) (duels p)\<rparr>)" for p
    by (simp add: finish_duel_def Let_def)
  have w: "?w = None"
  proof (cases "truthy ?w")
    case True
    with res have "finish_duel e uid s (add_attempt ?a s) duel question verdict ?w = (Inr r, s')"
      by (simp add: adjudicate_def Let_def)
    then show ?thesis by (rule fin)
  next
    case False
    with res none show ?thesis
      by (auto simp: adjudicate_def Let_def response_def split: sum.splits bool.splits dest: fin)
  qed
  show ?thesis
    using res w
    by (auto simp: adjudicate_def Let_def truthy_def both_submitted_def fin_none bot_opponent_def
             split: sum.splits bool.splits option.splits if_splits)
qed

text \<open>
  C2, as the code has it. When a submission against an ACTIVE duel decides no
  winner, no user's XP changes and no winner is stored. The duel stays as it was, ACTIVE
  with no completion time, unless both sides have submitted: the session sees an attempt of
  the challenger on the question since the duel was created, and it sees one of the
  opponent too or the opponent is a bot. In that case the duel is stored COMPLETED, with
  no winner and the completion time set.
\<close>

theorem C2_no_winner_active_or_draw:
  assumes duel: "get_duel_row s did = Some duel" "status duel = ACTIVE"
      and q: "get_question s (question_id duel) = Some question"
      and verdict: "execute_code e code language (correct_answer question) = ExecResult verdict"
      and res: "submit_solution e did uid code language t s = (Inr r, s')"
      and none: "r_winner_id r = None"
  shows "users s' = users s \<and>
         (if challenger_attempt (seen e (new_attempt e uid question code (verdict = Some True) t) s) duel \<noteq> None \<and>
             (opponent_attempt (seen e (new_attempt e uid question code (verdict = Some True) t) s) duel \<noteq> None \<or>
              bot_opponent duel \<noteq> None)
          then get_duel_row s' did
                 = Some (duel\<lparr>status := COMPLETED, winner_id := None, completed_at := Some (now_utc e)\<rparr>)
          else duels s' = duels s)"
proof -
  have part: "challenger_id duel = uid \<or> opponent_id duel = Some uid"
    using duel res by (auto simp: submit_solution_def split: if_splits)
  have "adjudicate e uid code t s duel question verdict = (Inr r, s')"
    using submit_solution_adjudicate[OF duel part q verdict] res by simp
  from adjudicate_no_winner[OF this none] get_duel_row_completed[OF duel(1), where w = None and e = e]
  show ?thesis
    by (auto simp: add_attempt_def complete_duel_def split: if_splits)
qed

text \<open>
  User 1 has an incorrect attempt on record, submits incorrect code again against the
  tier-3 bot, and the bot's draw is incorrect too: the duel is COMPLETED without a winner.
\<close>

theorem C2_no_winner_active_or_draw_witness:
  "get_duel_row (snd (submit_solution env0 1 1 ''41'' ''python'' 5
                        (store1 [wrong_attempt 1] [duel1 (Some (- 3)) ACTIVE]))) 1
     = Some ((duel1 (Some (- 3)) ACTIVE)
               \<lparr>status := COMPLETED, winner_id := None, completed_at := Some (now_utc env0)\<rparr>)"
proof -
  let ?s = "store1 [wrong_attempt 1] [duel1 (Some (- 3)) ACTIVE]"
  let ?r = "\<lparr>r_duel_id = 1, r_winner_id = None, r_challenger_result = Some (Some False),
             r_opponent_result = None, r_xp_awarded = 0, r_completed_at = now_utc env0\<rparr>"
  let ?s' = "snd (submit_solution env0 1 1 ''41'' ''python'' 5 ?s)"
  have run: "submit_solution env0 1 1 ''41'' ''python'' 5 ?s = (Inr ?r, ?s')"
    by (simp add: submit_solution_def adjudicate_def finish_duel_def response_def Let_def
                  determine_winner_def both_submitted_def truthy_def bot_opponent_def
                  simulate_bot_solution_def success_rate_table base_times_def
                  challenger_attempt_def opponent_attempt_def latest_attempt_def
                  attempts_since_def seen_def new_attempt_def add_attempt_def attempt_correct_def
                  get_duel_row_def get_question_def update_row_def complete_duel_def
                  store1_def duel1_def question1_def env0_def judge_def wrong_attempt_def
                  instant_def seconds_def now_utc_def)
  show ?thesis
    using C2_no_winner_active_or_draw
            [of ?s 1 "duel1 (Some (- 3)) ACTIVE" question1 env0 "''41''" "''python''" "Some False"
                1 5 ?r ?s', OF _ _ _ _ run]
    by (simp add: get_duel_row_def get_question_def store1_def duel1_def question1_def
                  env0_def judge_def wrong_attempt_def bot_opponent_def
                  challenger_attempt_def latest_attempt_def attempts_since_def seen_def
                  instant_def seconds_def)
qed

text \<open>
  So a duel without a winner does not always stay ACTIVE: not on that input, and not in
  a duel of two humans who both have an incorrect attempt on record when user 1 submits
  incorrect code again.
\<close>

theorem C2_counterexample:
  "map_sum id r_winner_id
     (fst (submit_solution env0 1 1 ''41'' ''python'' 5
             (store1 [wrong_attempt 1] [duel1 (Some (- 3)) ACTIVE]))) = Inr None \<and>
   \<not> bot_is_correct (simulate_bot_solution env0 (- 3) False) \<and>
   get_duel_row (snd (submit_solution env0 1 1 ''41'' ''python'' 5
                        (store1 [wrong_attempt 1] [duel1 (Some (- 3)) ACTIVE]))) 1
     = Some ((duel1 (Some (- 3)) ACTIVE)
               \<lparr>status := COMPLETED, completed_at := Some \<lparr>wall = seconds 100, tzinfo = Some 0\<rparr>\<rparr>) \<and>
   map_sum id r_winner_id
     (fst (submit_solution env0 1 1 ''41'' ''python'' 5
             (store1 [wrong_attempt 1, wrong_attempt 2] [duel1 (Some 2) ACTIVE]))) = Inr None \<and>
   get_duel_row (snd (submit_solution env0 1 1 ''41'' ''python'' 5
                        (store1 [wrong_attempt 1, wrong_attempt 2] [duel1 (Some 2) ACTIVE]))) 1
     = Some ((duel1 (Some 2) ACTIVE)
               \<lparr>status := COMPLETED, completed_at := Some \<lparr>wall = seconds 100, tzinfo = Some 0\<rparr>\<rparr>)"
  by (simp add: submit_solution_def adjudicate_def finish_duel_def response_def Let_def
                determine_winner_def both_submitted_def truthy_def bot_opponent_def
                simulate_bot_solution_def success_rate_table base_times_def
                challenger_attempt_def opponent_attempt_def latest_attempt_def
                attempts_since_def seen_def new_attempt_def add_attempt_def attempt_correct_def
                get_duel_row_def get_question_def update_row_def complete_duel_def
                store1_def duel1_def question1_def env0_def judge_def wrong_attempt_def
                instant_def seconds_def now_utc_def)

section \<open>XP for the winner\<close>

lemma find_credit:
  "find (\<lambda>u. u_id u = w) (credit w n us)
     = map_option (\<lambda>u. u\<lparr>xp := Some n\<rparr>) (find (\<lambda>u. u_id u = w) us)"
  by (induction us) (simp_all add: credit_def)

lemma finish_duel_users:
  assumes res: "finish_duel e uid s (add_attempt a s) duel question verdict winner = (Inr r, s')"
      and d: "get_duel_row s did = Some duel" "status duel = ACTIVE"
      and stored: "get_duel_row s' did = Some duel'" "status duel' = COMPLETED" "winner_id duel' = Some w"
  shows "winner = Some w \<and>
         (w < 0 \<longrightarrow> users s' = users s) \<and>
         (0 < w \<longrightarrow>
            (\<forall>u. get_user s w = Some u \<longrightarrow>
               (\<exists>x. xp u = Some x \<and>
                    users s' = credit w (x + duel_xp (xp_reward question)) (users s) \<and>
                    get_user s' w = Some (u\<lparr>xp := Some (x + duel_xp (xp_reward question))\<rparr>))))"
proof -
  let ?c = "\<lambda>w. add_attempt a s\<lparr>duels := update_row (duel_id duel) (complete_duel e w)
                                          (duels (add_attempt a s))\<rparr>"
  have row: "get_duel_row (?c v) did = Some (complete_duel e v duel)" for v
    by (rule get_duel_row_completed[OF d(1)])
  have users_c: "users (?c v) = users s" for v
    by (simp add: add_attempt_def)
  show ?thesis
  proof (cases winner)
    case None
    with res row[of None] stored show ?thesis
      by (auto simp: finish_duel_def Let_def complete_duel_def)
  next
    case (Some w0)
    show ?thesis
    proof (cases "0 < w0")
      case False
      with Some res have s': "s' = ?c (Some w0)"
        by (auto simp: finish_duel_def Let_def)
      with row[of "Some w0"] stored(1) have "duel' = complete_duel e (Some w0) duel" by simp
      with stored(3) have "w0 = w" by (simp add: complete_duel_def)
      with Some False s' users_c show ?thesis by auto
    next
      case True
      with Some res have s': "s' = snd (award_xp s (?c (Some w0)) w0 (duel_xp (xp_reward question)))"
        by (auto simp: finish_duel_def Let_def)
      show ?thesis
      proof (cases "get_user s w0")
        case None
        with s' have c: "s' = ?c (Some w0)" by (simp add: award_xp_def)
        with row[of "Some w0"] stored(1) have "duel' = complete_duel e (Some w0) duel" by simp
        with stored(3) have "w0 = w" by (simp add: complete_duel_def)
        with c users_c Some True None show ?thesis by auto
      next
        case u: (Some u)
        show ?thesis
        proof (cases "xp u")
          case None
          with s' u have "s' = s" by (simp add: award_xp_def)
          with d stored show ?thesis by simp
        next
          case x: (Some x)
          with s' u have s'': "s' = (?c (Some w0))\<lparr>users := credit w0 (x + duel_xp (xp_reward question)) (users s)\<rparr>"
            by (simp add: award_xp_def users_c)
          then have "get_duel_row s' did = Some (complete_duel e (Some w0) duel)"
            using row[of "Some w0"] by (simp add: get_duel_row_def)
          with stored(1) have "duel' = complete_duel e (Some w0) duel" by simp
          with stored(3) have "w0 = w" by (simp add: complete_duel_def)
          with Some True u x s'' show ?thesis
            by (auto simp: get_user_def find_credit)
        qed
      qed
    qed
  qed
qed

text \<open>
  C5, with the rounding of the code. When a submission leaves the duel stored COMPLETED
  with a winner, and the base reward of the question is below \<open>2 ^ 53\<close> in size: a
  winner with a negative id, a bot, leaves every user row as it was; a winner with a
  positive id who has a user row has a numeric XP total, and that total is raised by the
  base reward plus half the base reward with the fraction dropped (the value of
  \<^verbatim>\<open>int(base_xp * 0.5)\<close>, rounded toward zero), no other user row changing. A base
  reward of 30 gives 45.
\<close>

theorem C5_winner_credited_base_plus_half:
  assumes duel: "get_duel_row s did = Some duel" "status duel = ACTIVE"
      and q: "get_question s (question_id duel) = Some question"
      and res: "submit_solution e did uid code language t s = (Inr r, s')"
      and stored: "get_duel_row s' did = Some duel'" "status duel' = COMPLETED"
                "winner_id duel' = Some w"
      and small: "\<bar>xp_reward question\<bar> < 2 ^ 53"
  shows "(w < 0 \<longrightarrow> users s' = users s) \<and>
         (0 < w \<longrightarrow>
            (\<forall>u. get_user s w = Some u \<longrightarrow>
               (\<exists>x. xp u = Some x \<and>
                    users s'
                      = map (\<lambda>v. if u_id v = w
                                  then v\<lparr>xp := Some (x + (xp_reward question +
                                         (if 0 \<le> xp_reward question then xp_reward question div 2
                                          else - ((- xp_reward question) div 2))))\<rparr>
                                  else v) (users s) \<and>
                    get_user s' w
                      = Some (u\<lparr>xp := Some (x + (xp_reward question +
                                (if 0 \<le> xp_reward question then xp_reward question div 2
                                 else - ((- xp_reward question) div 2))))\<rparr>)))) \<and>
         duel_xp 30 = 45"
proof -
  have part: "challenger_id duel = uid \<or> opponent_id duel = Some uid"
    using duel res by (auto simp: submit_solution_def split: if_splits)
  obtain verdict where v: "execute_code e code language (correct_answer question) = ExecResult verdict"
    using duel q res part by (cases "execute_code e code language (correct_answer question)")
                              (auto simp: submit_solution_def)
  let ?a = "new_attempt e uid question code (verdict = Some True) t"
  have adj: "adjudicate e uid code t s duel question verdict = (Inr r, s')"
    using submit_solution_adjudicate[OF duel part q v] res by simp
  have "\<exists>winner. finish_duel e uid s (add_attempt ?a s) duel question verdict winner = (Inr r, s')"
  proof (rule ccontr)
    assume no: "\<not> ?thesis"
    with adj have "s' = add_attempt ?a s"
      by (auto simp: adjudicate_def Let_def split: if_splits sum.splits bool.splits)
    then have "get_duel_row s' did = Some duel"
      using duel(1) by (simp add: get_duel_row_def add_attempt_def)
    with stored duel(2) show False by simp
  qed
  then obtain winner where
    fin: "finish_duel e uid s (add_attempt ?a s) duel question verdict winner = (Inr r, s')" ..
  have xp: "duel_xp (xp_reward question)
              = xp_reward question + (if 0 \<le> xp_reward question then xp_reward question div 2
                                      else - ((- xp_reward question) div 2))"
    unfolding duel_xp_def bonus_xp_exact[OF small] ..
  have "duel_xp 30 = 45" by (simp add: duel_xp_def bonus_xp_exact)
  with finish_duel_users[OF fin duel stored] show ?thesis
    unfolding xp credit_def by simp
qed

text \<open>
  Scenario A: user 1 beats the tier-3 bot on the question with base reward 30 and goes
  from 100 to 145 XP.
\<close>

theorem C5_winner_credited_base_plus_half_witness:
  "\<bar>xp_reward question1\<bar> < 2 ^ 53 \<and>
   get_user (snd (submit_solution env0 1 1 ''42'' ''python'' 5
                    (store1 [] [duel1 (Some (- 3)) ACTIVE]))) 1
     = Some (user1\<lparr>xp := Some 145\<rparr>)"
proof -
  let ?s = "store1 [] [duel1 (Some (- 3)) ACTIVE]"
  let ?run = "submit_solution env0 1 1 ''42'' ''python'' 5 ?s"
  let ?r = "\<lparr>r_duel_id = 1, r_winner_id = Some 1, r_challenger_result = Some (Some True),
             r_opponent_result = None, r_xp_awarded = 45, r_completed_at = now_utc env0\<rparr>"
  have run: "?run = (Inr ?r, snd ?run)"
    and row: "get_duel_row (snd ?run) 1 = Some (complete_duel env0 (Some 1) (duel1 (Some (- 3)) ACTIVE))"
    by (simp_all add: submit_solution_def adjudicate_def finish_duel_def response_def Let_def
                  determine_winner_def both_submitted_def truthy_def bot_opponent_def
                  simulate_bot_solution_def success_rate_table base_times_def
                  challenger_attempt_def opponent_attempt_def latest_attempt_def
                  attempts_since_def seen_def new_attempt_def add_attempt_def attempt_correct_def
                  get_duel_row_def get_question_def get_user_def update_row_def complete_duel_def
                  award_xp_def duel_xp_30 duel_xp_25 credit_def
                  store1_def duel1_def question1_def user1_def user2_def env0_def judge_def
                  instant_def seconds_def now_utc_def)
  have small: "\<bar>xp_reward question1\<bar> < 2 ^ 53" by (simp add: question1_def)
  show ?thesis
    using C5_winner_credited_base_plus_half
            [of ?s 1 "duel1 (Some (- 3)) ACTIVE" question1 env0 1 "''42''" "''python''" 5 ?r
                "snd ?run" "complete_duel env0 (Some 1) (duel1 (Some (- 3)) ACTIVE)" 1,
             OF _ _ _ run row _ _ small]
    by (auto simp: get_duel_row_def get_question_def get_user_def store1_def duel1_def
                   question1_def user1_def complete_duel_def)
qed

text \<open>
  An exact half is not what an odd base reward gets: on a question worth 25, user 1 wins
  against user 2 and goes from 100 to 137 XP, a credit of 37 and not of 37.5. And from
  \<open>2 ^ 53\<close> on the product is rounded to a double before it is truncated: the even base
  reward \<open>2 ^ 54 + 2\<close> gets the bonus \<open>2 ^ 53\<close>, one less than its half.
\<close>

theorem C5_counterexample:
  "(duel_xp 18014398509481986 = 18014398509481986 + 9007199254740992 \<and>
    18014398509481986 div 2 = (9007199254740993 :: int)) \<and>
   get_user (snd (submit_solution env0 1 1 ''42'' ''python'' 5
                    ((store1 [] [duel1 (Some 2) ACTIVE])\<lparr>questions := [question1\<lparr>xp_reward := 25\<rparr>]\<rparr>))) 1
     = Some (user1\<lparr>xp := Some 137\<rparr>) \<and>
   get_duel_row (snd (submit_solution env0 1 1 ''42'' ''python'' 5
                    ((store1 [] [duel1 (Some 2) ACTIVE])\<lparr>questions := [question1\<lparr>xp_reward := 25\<rparr>]\<rparr>))) 1
     = Some (complete_duel env0 (Some 1) (duel1 (Some 2) ACTIVE)) \<and>
   duel_xp 25 = 37 \<and> 2 * duel_xp 25 \<noteq> 2 * 25 + 25"
proof (rule conjI)
  show "duel_xp 18014398509481986 = 18014398509481986 + 9007199254740992 \<and>
        18014398509481986 div 2 = (9007199254740993 :: int)"
    by code_simp
next
  show "get_user (snd (submit_solution env0 1 1 ''42'' ''python'' 5
                    ((store1 [] [duel1 (Some 2) ACTIVE])\<lparr>questions := [question1\<lparr>xp_reward := 25\<rparr>]\<rparr>))) 1
     = Some (user1\<lparr>xp := Some 137\<rparr>) \<and>
   get_duel_row (snd (submit_solution env0 1 1 ''42'' ''python'' 5
                    ((store1 [] [duel1 (Some 2) ACTIVE])\<lparr>questions := [question1\<lparr>xp_reward := 25\<rparr>]\<rparr>))) 1
     = Some (complete_duel env0 (Some 1) (duel1 (Some 2) ACTIVE)) \<and>
   duel_xp 25 = 37 \<and> 2 * duel_xp 25 \<noteq> 2 * 25 + 25"
    by (simp add: submit_solution_def adjudicate_def finish_duel_def response_def Let_def
                determine_winner_def both_submitted_def truthy_def bot_opponent_def
                challenger_attempt_def opponent_attempt_def latest_attempt_def
                attempts_since_def seen_def new_attempt_def add_attempt_def attempt_correct_def
                get_duel_row_def get_question_def get_user_def update_row_def complete_duel_def
                award_xp_def duel_xp_30 duel_xp_25 credit_def
                store1_def duel1_def question1_def user1_def user2_def env0_def judge_def
                instant_def seconds_def now_utc_def)
qed

section \<open>A failing XP credit\<close>

text \<open>
  When \<^verbatim>\<open>award_xp\<close> only reports failure, because the winner has no user row, the
  completed duel is committed as it is.
\<close>

lemma award_xp_missing_user_keeps_completion:
  assumes "get_duel_row s did = Some duel" and "0 < w" and "get_user s w = None"
  shows "\<exists>r s'. finish_duel e uid s (add_attempt a s) duel question verdict (Some w) = (Inr r, s') \<and>
                get_duel_row s' did = Some (complete_duel e (Some w) duel)"
  using finish_duel_human_winner[OF assms(1,2), of e uid a question verdict] assms(3)
  by (auto simp: award_raises_def)

text \<open>
  C9 fails when \<^verbatim>\<open>award_xp\<close> raises. User 1, whose XP total is \<^verbatim>\<open>NULL\<close>,
  submits correct code in an ACTIVE duel with user 2. The outcome names user 1 as winner
  with 45 XP, but the handler inside \<^verbatim>\<open>award_xp\<close> has rolled back the session that
  held the completion: the store is what it was before the call, the duel still ACTIVE with
  no winner and no completion time, and the attempt is not recorded.
\<close>

theorem C9_raising_award_rolls_back_completion:
  "submit_solution env0 1 1 ''42'' ''python'' 5
     ((store1 [] [duel1 (Some 2) ACTIVE])\<lparr>users := [user1\<lparr>xp := None\<rparr>, user2]\<rparr>)
   = (Inr \<lparr>r_duel_id = 1, r_winner_id = Some 1, r_challenger_result = Some (Some True),
           r_opponent_result = None, r_xp_awarded = 45,
           r_completed_at = \<lparr>wall = seconds 100, tzinfo = Some 0\<rparr>\<rparr>,
      (store1 [] [duel1 (Some 2) ACTIVE])\<lparr>users := [user1\<lparr>xp := None\<rparr>, user2]\<rparr>) \<and>
   get_duel_row
     (snd (submit_solution env0 1 1 ''42'' ''python'' 5
             ((store1 [] [duel1 (Some 2) ACTIVE])\<lparr>users := [user1\<lparr>xp := None\<rparr>, user2]\<rparr>))) 1
   = Some \<lparr>duel_id = 1, challenger_id = 1, opponent_id = Some 2, question_id = 1,
           status = ACTIVE, winner_id = None, created_at = \<lparr>wall = 0, tzinfo = None\<rparr>,
           completed_at = None\<rparr>"
  by (simp add: submit_solution_def adjudicate_def finish_duel_def response_def Let_def
                determine_winner_def both_submitted_def truthy_def bot_opponent_def
                challenger_attempt_def opponent_attempt_def latest_attempt_def
                attempts_since_def seen_def new_attempt_def add_attempt_def attempt_correct_def
                get_duel_row_def get_question_def get_user_def update_row_def complete_duel_def
                award_xp_def duel_xp_30
                store1_def duel1_def question1_def user1_def user2_def env0_def judge_def
                instant_def seconds_def now_utc_def)

section \<open>Exclusivity\<close>

lemma exclusiveI:
  assumes "\<And>p d1 d2. 0 < p \<Longrightarrow> d1 \<in> set ds \<Longrightarrow> d2 \<in> set ds \<Longrightarrow>
             open_duel_of p d1 \<Longrightarrow> open_duel_of p d2 \<Longrightarrow> duel_id d1 = duel_id d2"
  shows "exclusive ds"
  using assms unfolding exclusive_def by blast

lemma exclusiveD:
  assumes "exclusive ds" "0 < p" "d1 \<in> set ds" "d2 \<in> set ds" "open_duel_of p d1" "open_duel_of p d2"
  shows "duel_id d1 = duel_id d2"
  using assms unfolding exclusive_def by blast

text \<open>Rows that only leave the open duels of every user keep the store exclusive.\<close>

lemma exclusive_shrink:
  assumes ex: "exclusive ds"
      and sub: "\<And>d'. d' \<in> set ds' \<Longrightarrow>
                  \<exists>d \<in> set ds. duel_id d' = duel_id d \<and> (\<forall>p>0. open_duel_of p d' \<longrightarrow> open_duel_of p d)"
  shows "exclusive ds'"
proof (rule exclusiveI)
  fix p d1 d2
  assume p: "0 < p" and d1: "d1 \<in> set ds'" and d2: "d2 \<in> set ds'"
     and o1: "open_duel_of p d1" and o2: "open_duel_of p d2"
  from sub[OF d1] p o1 obtain e1 where e1: "e1 \<in> set ds" "duel_id d1 = duel_id e1" "open_duel_of p e1"
    by blast
  from sub[OF d2] p o2 obtain e2 where e2: "e2 \<in> set ds" "duel_id d2 = duel_id e2" "open_duel_of p e2"
    by blast
  from exclusiveD[OF ex p e1(1) e2(1) e1(3) e2(3)] e1(2) e2(2)
  show "duel_id d1 = duel_id d2" by simp
qed

lemma map_duel_id_update_row:
  assumes "\<And>d. duel_id (f d) = duel_id d"
  shows "map duel_id (update_row i f ds) = map duel_id ds"
  by (induction ds) (simp_all add: update_row_def assms)

lemma set_update_row:
  "d' \<in> set (update_row i f ds) \<Longrightarrow> \<exists>d \<in> set ds. d' = (if duel_id d = i then f d else d)"
  by (auto simp: update_row_def)

lemma find_Some_set: "find P xs = Some x \<Longrightarrow> x \<in> set xs \<and> P x"
  by (induction xs) (auto split: if_splits)

lemma find_None_set: "find P xs = None \<Longrightarrow> x \<in> set xs \<Longrightarrow> \<not> P x"
  by (induction xs) (auto split: if_splits)

lemma distinct_same_id:
  assumes "distinct (map duel_id ds)" "d1 \<in> set ds" "d2 \<in> set ds" "duel_id d1 = duel_id d2"
  shows "d1 = d2"
  using assms by (auto simp: distinct_map dest: inj_onD)

lemma not_open_complete_duel [simp]: "\<not> open_duel_of p (complete_duel e w d)"
  by (simp add: open_duel_of_def complete_duel_def)

text \<open>A completed duel is no longer open; nothing else changes in the duel table.\<close>

lemma exclusive_complete:
  assumes "exclusive ds"
  shows "exclusive (update_row i (complete_duel e w) ds)"
proof (rule exclusive_shrink[OF assms])
  fix d' assume "d' \<in> set (update_row i (complete_duel e w) ds)"
  then obtain d where "d \<in> set ds" "d' = (if duel_id d = i then complete_duel e w d else d)"
    by (blast dest: set_update_row)
  then show "\<exists>d \<in> set ds. duel_id d' = duel_id d \<and> (\<forall>p>0. open_duel_of p d' \<longrightarrow> open_duel_of p d)"
    by (intro bexI[of _ d]) auto
qed

lemma exclusive_filter:
  assumes "exclusive ds"
  shows "exclusive (filter P ds)"
  by (rule exclusive_shrink[OF assms]) auto

text \<open>What a submission can do to the duel table and the questions.\<close>

lemma finish_duel_tables:
  assumes "p = add_attempt a s"
  shows "questions (snd (finish_duel e uid s p duel question verdict winner)) = questions s \<and>
         (duels (snd (finish_duel e uid s p duel question verdict winner)) = duels s \<or>
          duels (snd (finish_duel e uid s p duel question verdict winner))
            = update_row (duel_id duel) (complete_duel e winner) (duels s))"
  using assms
  by (auto simp: finish_duel_def Let_def award_xp_def add_attempt_def split: option.splits)

lemma adjudicate_tables:
  "questions (snd (adjudicate e uid code t s duel question verdict)) = questions s \<and>
   (duels (snd (adjudicate e uid code t s duel question verdict)) = duels s \<or>
    (\<exists>w. duels (snd (adjudicate e uid code t s duel question verdict))
            = update_row (duel_id duel) (complete_duel e w) (duels s)))"
proof -
  let ?a = "new_attempt e uid question code (verdict = Some True) t"
  have fin: "questions (snd (finish_duel e uid s (add_attempt ?a s) duel question verdict w)) = questions s \<and>
         (duels (snd (finish_duel e uid s (add_attempt ?a s) duel question verdict w)) = duels s \<or>
          (\<exists>w'. duels (snd (finish_duel e uid s (add_attempt ?a s) duel question verdict w))
            = update_row (duel_id duel) (complete_duel e w') (duels s)))" for w
    using finish_duel_tables[OF refl, of e uid s ?a duel question verdict w] by blast
  let ?w = "determine_winner e uid t duel (verdict = Some True)
              (challenger_attempt (seen e ?a s) duel) (opponent_attempt (seen e ?a s) duel)"
  have "snd (adjudicate e uid code t s duel question verdict)
          = snd (finish_duel e uid s (add_attempt ?a s) duel question verdict ?w) \<or>
        snd (adjudicate e uid code t s duel question verdict) = s \<or>
        snd (adjudicate e uid code t s duel question verdict) = add_attempt ?a s"
    by (simp add: adjudicate_def Let_def split: sum.splits bool.splits)
  then show ?thesis
    using fin[of ?w] by (auto simp: add_attempt_def)
qed

lemma submit_solution_tables:
  "questions (snd (submit_solution e did uid code language t s)) = questions s \<and>
   (duels (snd (submit_solution e did uid code language t s)) = duels s \<or>
    (\<exists>i w. duels (snd (submit_solution e did uid code language t s))
            = update_row i (complete_duel e w) (duels s)))"
  using adjudicate_tables
  by (auto simp: submit_solution_def split: option.splits exec_outcome.splits) blast+

lemma valid_questions_cong: "questions s' = questions s \<Longrightarrow> valid_questions s' = valid_questions s"
  by (simp add: valid_questions_def)

lemma fold_max_ge: "(a::int) \<le> fold max xs a"
proof (induction xs arbitrary: a)
  case Nil
  show ?case by simp
next
  case (Cons x xs)
  have "a \<le> max x a" by simp
  also have "\<dots> \<le> fold max xs (max x a)" by (rule Cons.IH)
  finally show ?case by simp
qed

lemma fold_max_member: "(x::int) \<in> set xs \<Longrightarrow> x \<le> fold max xs a"
proof (induction xs arbitrary: a)
  case Nil
  then show ?case by simp
next
  case (Cons y ys)
  show ?case
  proof (cases "x = y")
    case True
    have "x \<le> max y a" using True by simp
    also have "\<dots> \<le> fold max ys (max y a)" by (rule fold_max_ge)
    finally show ?thesis by simp
  next
    case False
    with Cons.prems have "x \<in> set ys" by simp
    from Cons.IH[OF this] show ?thesis by simp
  qed
qed

lemma next_id_fresh: "d \<in> set ds \<Longrightarrow> duel_id d < next_id ds"
  using fold_max_member[of "duel_id d" "map duel_id ds" 0] by (simp add: next_id_def)

text \<open>
  Giving the row \<open>i\<close> an opponent \<open>q\<close> keeps the store exclusive when \<open>q\<close> is a bot
  or has no open duel elsewhere.
\<close>

lemma exclusive_activate:
  assumes dist: "distinct (map duel_id ds)" and ex: "exclusive ds"
      and duel: "duel \<in> set ds" "duel_id duel = i" "status duel = WAITING \<or> status duel = ACTIVE"
      and free: "0 < q \<Longrightarrow> \<forall>d \<in> set ds. open_duel_of q d \<longrightarrow> duel_id d = i"
  shows "exclusive (update_row i (activate q) ds)"
proof (rule exclusiveI)
  fix p d1' d2'
  assume p: "0 < p"
     and m1: "d1' \<in> set (update_row i (activate q) ds)"
     and m2: "d2' \<in> set (update_row i (activate q) ds)"
     and o1: "open_duel_of p d1'" and o2: "open_duel_of p d2'"
  have key: "open_duel_of p d \<or> (duel_id d = i \<and> p = q)"
    if d: "d \<in> set ds" and o: "open_duel_of p (if duel_id d = i then activate q d else d)" for d
  proof (cases "duel_id d = i")
    case False
    with o show ?thesis by simp
  next
    case True
    with d duel dist have "d = duel" by (auto intro: distinct_same_id)
    with True o duel(3) show ?thesis
      by (auto simp: open_duel_of_def activate_def)
  qed
  from m1 obtain d1 where d1: "d1 \<in> set ds" "d1' = (if duel_id d1 = i then activate q d1 else d1)"
    by (blast dest: set_update_row)
  from m2 obtain d2 where d2: "d2 \<in> set ds" "d2' = (if duel_id d2 = i then activate q d2 else d2)"
    by (blast dest: set_update_row)
  have id1: "duel_id d1' = duel_id d1" using d1(2) by simp
  have id2: "duel_id d2' = duel_id d2" using d2(2) by simp
  from key[OF d1(1)] o1 d1(2) have k1: "open_duel_of p d1 \<or> (duel_id d1 = i \<and> p = q)" by simp
  from key[OF d2(1)] o2 d2(2) have k2: "open_duel_of p d2 \<or> (duel_id d2 = i \<and> p = q)" by simp
  show "duel_id d1' = duel_id d2'"
  proof (cases "open_duel_of p d1 \<and> open_duel_of p d2")
    case True
    with exclusiveD[OF ex p d1(1) d2(1)] id1 id2 show ?thesis by simp
  next
    case False
    with k1 k2 have pq: "p = q" by blast
    with p free have all: "\<forall>d \<in> set ds. open_duel_of p d \<longrightarrow> duel_id d = i" by simp
    from k1 all d1(1) have "duel_id d1 = i" by blast
    moreover from k2 all d2(1) have "duel_id d2 = i" by blast
    ultimately show ?thesis using id1 id2 by simp
  qed
qed

lemma delete_update_commute:
  assumes "\<And>d. duel_id (f d) = duel_id d"
  shows "delete_row j (update_row i f ds) = update_row i f (delete_row j ds)"
  by (induction ds) (simp_all add: delete_row_def update_row_def assms)

lemma distinct_update_row:
  assumes "\<And>d. duel_id (f d) = duel_id d" and "distinct (map duel_id ds)"
  shows "distinct (map duel_id (update_row i f ds))"
  using assms by (simp add: map_duel_id_update_row)

lemma distinct_delete_row:
  "distinct (map duel_id ds) \<Longrightarrow> distinct (map duel_id (delete_row j ds))"
  by (simp add: delete_row_def distinct_map_filter)

text \<open>Each operation keeps ids unique, questions valid and the store exclusive.\<close>

lemma attempt_matchmaking_keeps:
  assumes dist: "distinct (map duel_id (duels s))" and val: "valid_questions s"
      and ex: "exclusive (duels s)"
  shows "distinct (map duel_id (duels (snd (attempt_matchmaking e did s)))) \<and>
         valid_questions (snd (attempt_matchmaking e did s)) \<and>
         exclusive (duels (snd (attempt_matchmaking e did s)))"
proof (cases "get_duel_row s did")
  case None
  then show ?thesis using assms by (simp add: attempt_matchmaking_def)
next
  case (Some duel)
  then have mem: "duel \<in> set (duels s)" and id: "duel_id duel = did"
    by (auto simp: get_duel_row_def dest: find_Some_set)
  show ?thesis
  proof (cases "status duel = WAITING")
    case False
    with Some show ?thesis using assms by (simp add: attempt_matchmaking_def)
  next
    case waiting: True
    show ?thesis
    proof (cases "potential_opponent_duel s duel")
      case peer: (Some other)
      let ?q = "challenger_id other" and ?j = "duel_id other"
      let ?ds0 = "delete_row ?j (duels s)"
      from peer have other: "other \<in> set (duels s)" "status other = WAITING"
                            "duel_id other \<noteq> duel_id duel"
        by (auto simp: potential_opponent_duel_def dest: find_Some_set)
      have res: "snd (attempt_matchmaking e did s)
                   = s\<lparr>duels := update_row did (activate ?q) ?ds0\<rparr>"
        using Some waiting peer id
        by (simp add: attempt_matchmaking_def delete_update_commute)
      have dist0: "distinct (map duel_id ?ds0)" by (rule distinct_delete_row[OF dist])
      have ex0: "exclusive ?ds0" unfolding delete_row_def by (rule exclusive_filter[OF ex])
      have mem0: "duel \<in> set ?ds0" using mem other(3) by (simp add: delete_row_def)
      have free: "\<forall>d \<in> set ?ds0. open_duel_of ?q d \<longrightarrow> duel_id d = did" if q: "0 < ?q"
      proof (intro ballI impI)
        fix d assume d: "d \<in> set ?ds0" and o: "open_duel_of ?q d"
        from d have d': "d \<in> set (duels s)" "duel_id d \<noteq> ?j" by (auto simp: delete_row_def)
        have "open_duel_of ?q other" using other(2) by (simp add: open_duel_of_def)
        from exclusiveD[OF ex q d'(1) other(1) o this] d'(2) show "duel_id d = did" by simp
      qed
      have "exclusive (update_row did (activate ?q) ?ds0)"
        using exclusive_activate[OF dist0 ex0 mem0 id _ free] waiting by simp
      moreover have "distinct (map duel_id (update_row did (activate ?q) ?ds0))"
        by (rule distinct_update_row[OF _ dist0]) simp
      ultimately show ?thesis using val by (simp add: res valid_questions_def)
    next
      case nopeer: None
      show ?thesis
      proof (cases "snd (attempt_matchmaking e did s) = s")
        case True
        then show ?thesis using assms by simp
      next
        case False
        then obtain question where q: "get_question s (question_id duel) = Some question"
            and res: "snd (attempt_matchmaking e did s)
                        = s\<lparr>duels := update_row did (activate (- difficulty question)) (duels s)\<rparr>"
          using Some waiting nopeer id
          by (auto simp: attempt_matchmaking_def assign_bot_opponent_def
                   split: if_splits option.splits)
        from q have "question \<in> set (questions s)"
          by (auto simp: get_question_def dest: find_Some_set)
        with val have neg: "\<not> 0 < - difficulty question"
          by (auto simp: valid_questions_def)
        have "exclusive (update_row did (activate (- difficulty question)) (duels s))"
          using exclusive_activate[OF dist ex mem id, of "- difficulty question"] waiting neg
          by simp
        moreover have "distinct (map duel_id (update_row did (activate (- difficulty question)) (duels s)))"
          by (rule distinct_update_row[OF _ dist]) simp
        ultimately show ?thesis using val by (simp add: res valid_questions_def)
      qed
    qed
  qed
qed

lemma join_duel_keeps:
  assumes dist: "distinct (map duel_id (duels s))" and val: "valid_questions s"
      and ex: "exclusive (duels s)"
  shows "distinct (map duel_id (duels (snd (join_duel did uid s)))) \<and>
         valid_questions (snd (join_duel did uid s)) \<and>
         exclusive (duels (snd (join_duel did uid s)))"
proof (cases "snd (join_duel did uid s) = s")
  case True
  then show ?thesis using assms by simp
next
  case False
  then obtain duel where d: "get_duel_row s did = Some duel" "status duel = WAITING"
      and none: "existing_duel s uid = None"
      and res: "snd (join_duel did uid s) = s\<lparr>duels := update_row (duel_id duel) (activate uid) (duels s)\<rparr>"
    by (auto simp: join_duel_def split: option.splits if_splits)
  from d have mem: "duel \<in> set (duels s)"
    by (auto simp: get_duel_row_def dest: find_Some_set)
  have free: "\<forall>x \<in> set (duels s). open_duel_of uid x \<longrightarrow> duel_id x = duel_id duel"
    using none by (auto simp: existing_duel_def dest: find_None_set)
  have "exclusive (update_row (duel_id duel) (activate uid) (duels s))"
    using exclusive_activate[OF dist ex mem refl _ free] d(2) by simp
  moreover have "distinct (map duel_id (update_row (duel_id duel) (activate uid) (duels s)))"
    by (rule distinct_update_row[OF _ dist]) simp
  ultimately show ?thesis using val by (simp add: res valid_questions_def)
qed

lemma submit_solution_keeps:
  assumes dist: "distinct (map duel_id (duels s))" and val: "valid_questions s"
      and ex: "exclusive (duels s)"
  shows "distinct (map duel_id (duels (snd (submit_solution e did uid code language t s)))) \<and>
         valid_questions (snd (submit_solution e did uid code language t s)) \<and>
         exclusive (duels (snd (submit_solution e did uid code language t s)))"
proof -
  let ?s' = "snd (submit_solution e did uid code language t s)"
  from submit_solution_tables[of e did uid code language t s]
  have q: "questions ?s' = questions s"
    and ds: "duels ?s' = duels s \<or> (\<exists>i w. duels ?s' = update_row i (complete_duel e w) (duels s))"
    by blast+
  from ds have "distinct (map duel_id (duels ?s')) \<and> exclusive (duels ?s')"
  proof
    assume "duels ?s' = duels s"
    with dist ex show ?thesis by simp
  next
    assume "\<exists>i w. duels ?s' = update_row i (complete_duel e w) (duels s)"
    then obtain i w where u: "duels ?s' = update_row i (complete_duel e w) (duels s)" by blast
    have "distinct (map duel_id (update_row i (complete_duel e w) (duels s)))"
      by (rule distinct_update_row[OF _ dist]) simp
    with exclusive_complete[OF ex, of i e w] u show ?thesis by simp
  qed
  with q val show ?thesis by (simp add: valid_questions_def)
qed

lemma cleanup_old_duels_keeps:
  assumes dist: "distinct (map duel_id (duels s))" and val: "valid_questions s"
      and ex: "exclusive (duels s)"
  shows "distinct (map duel_id (duels (snd (cleanup_old_duels e s)))) \<and>
         valid_questions (snd (cleanup_old_duels e s)) \<and>
         exclusive (duels (snd (cleanup_old_duels e s)))"
  using assms
  by (simp add: cleanup_old_duels_def Let_def fold_delete_row distinct_map_filter
                exclusive_filter valid_questions_def)

lemma create_duel_keeps:
  assumes dist: "distinct (map duel_id (duels s))" and val: "valid_questions s"
      and ex: "exclusive (duels s)"
  shows "distinct (map duel_id (duels (snd (create_duel e qid uid s)))) \<and>
         valid_questions (snd (create_duel e qid uid s)) \<and>
         exclusive (duels (snd (create_duel e qid uid s)))"
proof (cases "snd (create_duel e qid uid s) = s")
  case True
  then show ?thesis using assms by simp
next
  case False
  let ?new = "new_duel e s qid uid"
  let ?s1 = "s\<lparr>duels := duels s @ [?new]\<rparr>"
  from False have none: "existing_duel s uid = None"
      and res: "snd (create_duel e qid uid s) = snd (attempt_matchmaking e (duel_id ?new) ?s1)"
    by (auto simp: create_duel_def Let_def split: option.splits if_splits)
  have "duel_id d < duel_id ?new" if "d \<in> set (duels s)" for d
    using next_id_fresh[OF that] by (simp add: new_duel_def)
  then have fresh: "duel_id ?new \<notin> duel_id ` set (duels s)"
    by force
  have dist1: "distinct (map duel_id (duels ?s1))"
    using dist fresh by simp
  have ex1: "exclusive (duels ?s1)"
  proof (rule exclusiveI)
    fix p d1 d2
    assume p: "0 < p" and d1: "d1 \<in> set (duels ?s1)" and d2: "d2 \<in> set (duels ?s1)"
       and o1: "open_duel_of p d1" and o2: "open_duel_of p d2"
    have closed: "\<not> open_duel_of uid d" if "d \<in> set (duels s)" for d
      using none that by (auto simp: existing_duel_def dest: find_None_set)
    have new: "open_duel_of p ?new \<Longrightarrow> p = uid"
      by (simp add: open_duel_of_def new_duel_def)
    show "duel_id d1 = duel_id d2"
    proof (cases "d1 = ?new \<or> d2 = ?new")
      case False
      with d1 d2 have "d1 \<in> set (duels s)" "d2 \<in> set (duels s)" by auto
      from exclusiveD[OF ex p this o1 o2] show ?thesis .
    next
      case True
      with o1 o2 new have "p = uid" by auto
      with o1 o2 closed d1 d2 have "d1 = ?new" "d2 = ?new" by auto
      then show ?thesis by simp
    qed
  qed
  have val1: "valid_questions ?s1" using val by (simp add: valid_questions_def)
  from attempt_matchmaking_keeps[OF dist1 val1 ex1, of e "duel_id ?new"] res
  show ?thesis by simp
qed

lemma reachable_invariant:
  "reachable s \<Longrightarrow>
     distinct (map duel_id (duels s)) \<and> valid_questions s \<and> exclusive (duels s)"
proof (induction rule: reachable.induct)
  case (no_duels s)
  then show ?case by (simp add: exclusive_def)
next
  case (other_tables s s')
  then show ?case by simp
next
  case (create s e qid uid)
  then show ?case by (intro create_duel_keeps) simp_all
next
  case (join s did uid)
  then show ?case by (intro join_duel_keeps) simp_all
next
  case (submit s e did uid code language t)
  then show ?case by (intro submit_solution_keeps) simp_all
next
  case (matchmaking s e did)
  then show ?case by (intro attempt_matchmaking_keeps) simp_all
next
  case (cleanup s e)
  then show ?case by (intro cleanup_old_duels_keeps) simp_all
qed

lemma at_most_one:
  assumes "distinct (map f xs)" and "\<And>x y. x \<in> set xs \<Longrightarrow> y \<in> set xs \<Longrightarrow> P x \<Longrightarrow> P y \<Longrightarrow> f x = f y"
  shows "length (filter P xs) \<le> 1"
  using assms
proof (induction xs)
  case Nil
  show ?case by simp
next
  case (Cons x xs)
  have ih: "length (filter P xs) \<le> 1"
    using Cons.prems by (intro Cons.IH) auto
  show ?case
  proof (cases "P x")
    case False
    with ih show ?thesis by simp
  next
    case True
    have "filter P xs = []"
    proof (rule ccontr)
      assume "filter P xs \<noteq> []"
      then obtain y where y: "y \<in> set xs" "P y"
        by (auto simp: filter_empty_conv)
      with Cons.prems(2)[of x y] True have "f x = f y" by simp
      with y(1) Cons.prems(1) show False by auto
    qed
    with True show ?thesis by simp
  qed
qed

text \<open>
  C7, as the code has it. In every reachable store a participant, a user with a positive
  id, is challenger or opponent of at most one WAITING or ACTIVE duel. A caller who has
  such a duel cannot create or join: both calls fail and return the store as it was. The
  checks run in the order of the code, and the error is that of the first one that fails.
  For create: "Question not found" if the question does not exist, "Only code questions
  can be used for duels" if it is not a code question, and otherwise "You already have an
  active duel". For join: "Duel not found" if the duel does not exist, "Duel is not
  available for joining" if it is not WAITING, "Cannot join your own duel" if the caller
  is its challenger, "Duel already has an opponent" if it has one, and otherwise "You
  already have an active duel".
\<close>

theorem C7_one_open_duel_per_user:
  "(reachable s \<longrightarrow> 0 < p \<longrightarrow> length (filter (open_duel_of p) (duels s)) \<le> 1) \<and>
   (existing_duel s' uid \<noteq> None \<longrightarrow>
      create_duel e qid uid s'
        = (Inl (case get_question s' qid of
                  None \<Rightarrow> Question_not_found
                | Some question \<Rightarrow>
                    if q_type question \<noteq> CODE then Only_code_questions
                    else Already_have_active_duel), s') \<and>
      join_duel did uid s'
        = (Inl (case get_duel_row s' did of
                  None \<Rightarrow> Duel_not_found
                | Some duel \<Rightarrow>
                    if status duel \<noteq> WAITING then Duel_not_available_for_joining
                    else if challenger_id duel = uid then Cannot_join_own_duel
                    else if opponent_id duel \<noteq> None then Duel_already_has_opponent
                    else Already_have_active_duel), s'))"
proof (intro conjI impI)
  assume r: "reachable s" and p: "0 < p"
  from reachable_invariant[OF r]
  have dist: "distinct (map duel_id (duels s))" and ex: "exclusive (duels s)" by simp_all
  show "length (filter (open_duel_of p) (duels s)) \<le> 1"
    by (rule at_most_one[OF dist]) (rule exclusiveD[OF ex p])
next
  assume "existing_duel s' uid \<noteq> None"
  then show "create_duel e qid uid s'
        = (Inl (case get_question s' qid of
                  None \<Rightarrow> Question_not_found
                | Some question \<Rightarrow>
                    if q_type question \<noteq> CODE then Only_code_questions
                    else Already_have_active_duel), s')"
    by (auto simp: create_duel_def split: option.splits)
next
  assume "existing_duel s' uid \<noteq> None"
  then show "join_duel did uid s'
        = (Inl (case get_duel_row s' did of
                  None \<Rightarrow> Duel_not_found
                | Some duel \<Rightarrow>
                    if status duel \<noteq> WAITING then Duel_not_available_for_joining
                    else if challenger_id duel = uid then Cannot_join_own_duel
                    else if opponent_id duel \<noteq> None then Duel_already_has_opponent
                    else Already_have_active_duel), s')"
    by (auto simp: join_duel_def split: option.splits)
qed

text \<open>
  Scenario C: user 1 creates a duel on question 1 in a store without duels, it stays
  WAITING, and a second create is refused. User 2, who has a WAITING duel, cannot join the
  duel of user 1.
\<close>

theorem C7_one_open_duel_per_user_witness:
  "reachable (snd (create_duel env0 1 1 (store1 [] []))) \<and>
   existing_duel (snd (create_duel env0 1 1 (store1 [] []))) 1 \<noteq> None \<and>
   length (filter (open_duel_of 1) (duels (snd (create_duel env0 1 1 (store1 [] []))))) \<le> 1 \<and>
   create_duel env0 1 1 (snd (create_duel env0 1 1 (store1 [] [])))
     = (Inl Already_have_active_duel, snd (create_duel env0 1 1 (store1 [] []))) \<and>
   join_duel 1 2 ((store1 [] [duel1 None WAITING, (duel1 None WAITING)\<lparr>duel_id := 2, challenger_id := 2\<rparr>]))
     = (Inl Already_have_active_duel,
        store1 [] [duel1 None WAITING, (duel1 None WAITING)\<lparr>duel_id := 2, challenger_id := 2\<rparr>])"
proof -
  let ?s1 = "snd (create_duel env0 1 1 (store1 [] []))"
  let ?s2 = "store1 [] [duel1 None WAITING, (duel1 None WAITING)\<lparr>duel_id := 2, challenger_id := 2\<rparr>]"
  have s1: "?s1 = store1 [] [(duel1 None WAITING)\<lparr>created_at := db_now env0\<rparr>]"
    by (simp add: create_duel_def Let_def get_question_def existing_duel_def new_duel_def
                  next_id_def attempt_matchmaking_def get_duel_row_def potential_opponent_duel_def
                  store1_def duel1_def question1_def env0_def instant_def seconds_def
                  now_utc_def assume_utc_def)
  have r: "reachable ?s1"
    by (rule reachable.create, rule reachable.no_duels)
       (simp_all add: store1_def valid_questions_def question1_def)
  have open1: "existing_duel ?s1 1 \<noteq> None"
    unfolding s1 by (simp add: existing_duel_def open_duel_of_def store1_def duel1_def)
  have q1: "get_question ?s1 1 = Some question1"
    unfolding s1 by (simp add: get_question_def store1_def question1_def)
  have open2: "existing_duel ?s2 2 \<noteq> None"
    by (simp add: existing_duel_def open_duel_of_def store1_def duel1_def)
  have d2: "get_duel_row ?s2 1 = Some (duel1 None WAITING)"
    by (simp add: get_duel_row_def store1_def duel1_def)
  from C7_one_open_duel_per_user [of ?s1 1 ?s1 1 env0 1 1] r open1 q1
  have a: "length (filter (open_duel_of 1) (duels ?s1)) \<le> 1"
    and b: "create_duel env0 1 1 ?s1 = (Inl Already_have_active_duel, ?s1)"
    by (simp_all add: question1_def)
  from C7_one_open_duel_per_user [of ?s1 1 ?s2 2 env0 1 1] open2 d2
  have c: "join_duel 1 2 ?s2 = (Inl Already_have_active_duel, ?s2)"
    by (simp add: duel1_def)
  from r open1 a b c show ?thesis by simp
qed

text \<open>
  The error is not always "You already have an active duel": user 1, who has a WAITING
  duel, is told "Cannot join your own duel" when joining it and "Question not found" when
  creating a duel on a question that does not exist.
\<close>

theorem C7_counterexample:
  "existing_duel (store1 [] [duel1 None WAITING]) 1 = Some (duel1 None WAITING) \<and>
   join_duel 1 1 (store1 [] [duel1 None WAITING])
     = (Inl Cannot_join_own_duel, store1 [] [duel1 None WAITING]) \<and>
   create_duel env0 7 1 (store1 [] [duel1 None WAITING])
     = (Inl Question_not_found, store1 [] [duel1 None WAITING])"
  by (simp add: existing_duel_def open_duel_of_def join_duel_def create_duel_def
                get_duel_row_def get_question_def store1_def duel1_def question1_def)

end
